theory Spec2Isabelle
  imports Main "HOL-Library.Word" "HOL-Library.Sublist"
begin

section \<open>JavaScript values used by the HTTP client\<close>

text \<open>
  A JavaScript string is a sequence of UTF-16 code units, so its \<open>length\<close> counts code
  units and not bytes. String literals of the source are written \<open>js ''...''\<close>.
\<close>

type_synonym jchar = "16 word"
type_synonym jstring = "jchar list"

definition js :: "string \<Rightarrow> jstring" where
  "js s = map of_char s"

text \<open>The double quote character, which the source writes inside its literals.\<close>

definition dq :: jstring where
  "dq = [0x22]"

text \<open>
  \<open>IAttachment\<close> of the source. The body is a readable stream; the model keeps an opaque
  identifier for it.
\<close>

record attachment =
  name :: jstring
  contentId :: jstring
  mimetype :: jstring
  body :: nat

text \<open>
  Values of type \<open>any\<close>. \<open>JHeaders m p\<close> is an instance of the \<open>Headers\<close> class of
  cross-fetch: \<open>m\<close> is the header list the class keeps internally (what \<open>get\<close>,
  \<open>set\<close>, \<open>forEach\<close> and \<open>fetch\<close> read, names in lower case) and \<open>p\<close> are the
  ordinary JavaScript properties assigned on the object from outside
  (\<open>obj[key] = value\<close>), which the class never reads.
\<close>

datatype jsval =
    JUndefined
  | JNull
  | JBool bool
  | JNum int
  | JStr jstring
  | JObj "(jstring \<times> jsval) list"
  | JArr "jsval list"
  | JAttachments "attachment list"
  | JHeaders "(jstring \<times> jstring) list" "(jstring \<times> jsval) list"
  | JStream nat

datatype js_error = TypeError jstring | Error jstring | TransportError jstring

fun truthy :: "jsval \<Rightarrow> bool" where
  "truthy JUndefined = False"
| "truthy JNull = False"
| "truthy (JBool b) = b"
| "truthy (JNum n) = (n \<noteq> 0)"
| "truthy (JStr s) = (s \<noteq> [])"
| "truthy _ = True"

text \<open>Property read \<open>obj[key]\<close> on a plain object: \<open>undefined\<close> when the key is absent.\<close>

definition get_prop :: "(jstring \<times> jsval) list \<Rightarrow> jstring \<Rightarrow> jsval" where
  "get_prop obj k = (case map_of obj k of None \<Rightarrow> JUndefined | Some v \<Rightarrow> v)"

text \<open>
  Property write \<open>obj[key] = value\<close>: an existing property keeps its place, a new one is
  added at the end.
\<close>

fun set_prop :: "'k \<Rightarrow> 'v \<Rightarrow> ('k \<times> 'v) list \<Rightarrow> ('k \<times> 'v) list" where
  "set_prop k v [] = [(k, v)]"
| "set_prop k v ((k', v') # r) = (if k = k' then (k, v) # r else (k', v') # set_prop k v r)"

subsection \<open>Strings\<close>

fun starts_with :: "'a list \<Rightarrow> 'a list \<Rightarrow> bool" where
  "starts_with [] s = True"
| "starts_with (p # ps) [] = False"
| "starts_with (p # ps) (x # xs) = (p = x \<and> starts_with ps xs)"

text \<open>\<open>s.indexOf(p) > -1\<close>\<close>

fun contains :: "'a list \<Rightarrow> 'a list \<Rightarrow> bool" where
  "contains p [] = (p = [])"
| "contains p (x # xs) = (starts_with p (x # xs) \<or> contains p xs)"

text \<open>\<open>s.split(sep)\<close> for a non-empty separator; \<open>cur\<close> is the piece being read.\<close>

fun split_on :: "'a list \<Rightarrow> 'a list \<Rightarrow> 'a list \<Rightarrow> 'a list list" where
  "split_on sep cur [] = [cur]"
| "split_on sep cur (x # xs) =
     (if sep \<noteq> [] \<and> starts_with sep (x # xs)
      then cur # split_on sep [] (drop (length sep - 1) xs)
      else split_on sep (cur @ [x]) xs)"

definition split :: "'a list \<Rightarrow> 'a list \<Rightarrow> 'a list list" where
  "split sep s = split_on sep [] s"

definition digit :: "nat \<Rightarrow> jchar" where
  "digit d = of_nat (48 + d)"

text \<open>Decimal notation of a non-negative integer, as \<open>n + ''\<close> gives it.\<close>

function show_nat :: "nat \<Rightarrow> jstring" where
  "show_nat n = (if n < 10 then [digit n] else show_nat (n div 10) @ [digit (n mod 10)])"
  by pat_completeness auto
termination
  by (relation "measure id") auto

declare show_nat.simps [simp del]

definition show_int :: "int \<Rightarrow> jstring" where
  "show_int i = (if i < 0 then js ''-'' @ show_nat (nat (- i)) else show_nat (nat i))"

text \<open>
  \<open>'' + v\<close> for the values the client concatenates: \<open>null\<close> prints as \<open>null\<close>.
\<close>

definition str_or_null :: "jstring option \<Rightarrow> jstring" where
  "str_or_null v = (case v of None \<Rightarrow> js ''null'' | Some s \<Rightarrow> s)"

definition is_digit :: "jchar \<Rightarrow> bool" where
  "is_digit c = (0x30 \<le> c \<and> c \<le> 0x39)"

text \<open>The white space of JavaScript (\<open>\s\<close> of a regular expression, and what \<open>parseInt\<close> skips).\<close>

definition is_space :: "jchar \<Rightarrow> bool" where
  "is_space c =
     (c = 0x09 \<or> c = 0x0A \<or> c = 0x0B \<or> c = 0x0C \<or> c = 0x0D \<or> c = 0x20 \<or> c = 0xA0
      \<or> c = 0x1680 \<or> (0x2000 \<le> c \<and> c \<le> 0x200A) \<or> c = 0x2028 \<or> c = 0x2029
      \<or> c = 0x202F \<or> c = 0x205F \<or> c = 0x3000 \<or> c = 0xFEFF)"

definition digits_value :: "jstring \<Rightarrow> nat" where
  "digits_value ds = foldl (\<lambda>acc c. 10 * acc + (unat c - 48)) 0 ds"

text \<open>
  \<open>parseInt(v, 10)\<close>, with \<open>None\<close> for \<open>NaN\<close>: \<open>null\<close> is read as the string \<open>null\<close>,
  which has no digits. Numbers are exact integers here; JavaScript's are exact up to
  \<open>2^53\<close>.
\<close>

definition parseInt :: "jstring option \<Rightarrow> int option" where
  "parseInt v =
     (let s = dropWhile is_space (str_or_null v);
          neg = (s \<noteq> [] \<and> hd s = 0x2D);
          s' = (if s \<noteq> [] \<and> (hd s = 0x2D \<or> hd s = 0x2B) then tl s else s);
          ds = takeWhile is_digit s'
      in if ds = [] then None
         else Some (if neg then - int (digits_value ds) else int (digits_value ds)))"

subsection \<open>UTF-8\<close>

text \<open>
  \<open>Buffer.byteLength(s, 'utf8')\<close> is the number of bytes of the UTF-8 encoding of \<open>s\<close>.
  A surrogate pair is one code point of four bytes; a surrogate that is not part of a pair
  is encoded as U+FFFD, three bytes.
\<close>

definition is_high_surrogate :: "jchar \<Rightarrow> bool" where
  "is_high_surrogate c = (0xD800 \<le> c \<and> c \<le> 0xDBFF)"

definition is_low_surrogate :: "jchar \<Rightarrow> bool" where
  "is_low_surrogate c = (0xDC00 \<le> c \<and> c \<le> 0xDFFF)"

fun code_points :: "jstring \<Rightarrow> nat list" where
  "code_points [] = []"
| "code_points [c] =
     (if is_high_surrogate c \<or> is_low_surrogate c then [0xFFFD] else [unat c])"
| "code_points (c # d # r) =
     (if is_high_surrogate c \<and> is_low_surrogate d
      then (0x10000 + (unat c - 0xD800) * 0x400 + (unat d - 0xDC00)) # code_points r
      else if is_high_surrogate c \<or> is_low_surrogate c then 0xFFFD # code_points (d # r)
      else unat c # code_points (d # r))"

definition utf8_bytes :: "nat \<Rightarrow> 8 word list" where
  "utf8_bytes cp =
     (if cp < 0x80 then [of_nat cp]
      else if cp < 0x800 then [of_nat (0xC0 + cp div 0x40), of_nat (0x80 + cp mod 0x40)]
      else if cp < 0x10000 then
        [of_nat (0xE0 + cp div 0x1000), of_nat (0x80 + (cp div 0x40) mod 0x40),
         of_nat (0x80 + cp mod 0x40)]
      else
        [of_nat (0xF0 + cp div 0x40000), of_nat (0x80 + (cp div 0x1000) mod 0x40),
         of_nat (0x80 + (cp div 0x40) mod 0x40), of_nat (0x80 + cp mod 0x40)])"

definition utf8_encode :: "jstring \<Rightarrow> 8 word list" where
  "utf8_encode s = concat (map utf8_bytes (code_points s))"

definition byteLength :: "jstring \<Rightarrow> nat" where
  "byteLength s = length (utf8_encode s)"

section \<open>The request builder\<close>

subsection \<open>The \<open>Headers\<close> class\<close>

text \<open>
  \<open>Headers\<close> of cross-fetch matches header names without regard to case; the model
  keeps them in lower case. \<open>set\<close> replaces the value of a name that is present.
  Header names and values are taken to be valid (the class rejects other ones with a
  \<open>TypeError\<close>, which is not modelled).
\<close>

type_synonym header_list = "(jstring \<times> jstring) list"

definition lower_char :: "jchar \<Rightarrow> jchar" where
  "lower_char c = (if 0x41 \<le> c \<and> c \<le> 0x5A then c + 0x20 else c)"

definition lowercase :: "jstring \<Rightarrow> jstring" where
  "lowercase s = map lower_char s"

definition headers_set :: "jstring \<Rightarrow> jstring \<Rightarrow> header_list \<Rightarrow> header_list" where
  "headers_set k v h = set_prop (lowercase k) v h"

definition headers_get :: "jstring \<Rightarrow> header_list \<Rightarrow> jstring option" where
  "headers_get k h = map_of h (lowercase k)"

text \<open>\<open>new Headers(init)\<close> for a plain object \<open>init\<close>.\<close>

definition headers_init :: "(jstring \<times> jstring) list \<Rightarrow> header_list" where
  "headers_init kvs = fold (\<lambda>(k, v) h. headers_set k v h) kvs []"

subsection \<open>\<open>HttpClient.buildRequest\<close>\<close>

text \<open>
  What \<open>url.parse(rurl)\<close> returns (Node's module \<open>url\<close>); a component the URL does not
  have is \<open>null\<close>. \<open>url.parse\<close> keeps a port that the URL writes, whatever the scheme.
  \<open>buildRequest\<close> uses the host name and the port; it reads the other components into
  \<open>secure\<close> and \<open>path\<close>, which it never uses.
\<close>

record parsed_url =
  protocol :: "jstring option"
  hostname :: "jstring option"
  port :: "jstring option"
  pathname :: "jstring option"
  search :: "jstring option"
  hash :: "jstring option"

text \<open>
  What \<open>buildRequest\<close> reads from outside its arguments: the version of
  \<open>package.json\<close>, the result of \<open>url.parse(rurl)\<close>, and the two identifiers that the
  two calls of \<open>uuid()\<close> return.
\<close>

record build_env =
  VERSION :: jstring
  curl :: parsed_url
  uuid_start :: jstring
  uuid_boundary :: jstring

type_synonym js_object = "(jstring \<times> jsval) list"

definition is_string :: "jsval \<Rightarrow> bool" where
  "is_string v = (case v of JStr s \<Rightarrow> True | _ \<Rightarrow> False)"

text \<open>
  \<open>exoptions.attachments || []\<close>, declared \<open>IAttachment[]\<close>: an option of another type
  is outside the declared type and is read as no attachment.
\<close>

definition attachments_of :: "js_object \<Rightarrow> attachment list" where
  "attachments_of exoptions =
     (case get_prop exoptions (js ''attachments'') of JAttachments as \<Rightarrow> as | _ \<Rightarrow> [])"

definition base_headers :: "build_env \<Rightarrow> js_object \<Rightarrow> header_list" where
  "base_headers env exoptions =
     headers_init
       [(js ''User-Agent'', js ''node-soap/'' @ VERSION env),
        (js ''Accept'',
           js ''text/html,application/xhtml+xml,application/xml,text/xml;q=0.9,*/*;q=0.8''),
        (js ''Accept-Encoding'', js ''none''),
        (js ''Accept-Charset'', js ''utf-8''),
        (js ''Connection'',
           if truthy (get_prop exoptions (js ''forever'')) then js ''keep-alive''
           else js ''close''),
        (js ''Host'',
           str_or_null (hostname (curl env)) @
           (case parseInt (port (curl env)) of None \<Rightarrow> [] | Some p \<Rightarrow> js '':'' @ show_int p))]"

text \<open>
  The loop over \<open>contentType.split('; ')\<close>: the last piece that contains \<open>action\<close>,
  \<open>null\<close> when there is none.
\<close>

definition find_action :: "jstring \<Rightarrow> jstring option" where
  "find_action contentType =
     (if contains (js ''action'') contentType
      then fold (\<lambda>ct action. if contains (js ''action'') ct then Some ct else action)
             (split (js ''; '') contentType) None
      else None)"

definition mtom_content_type :: "build_env \<Rightarrow> jstring option \<Rightarrow> jstring" where
  "mtom_content_type env action =
     (let contentType =
            js ''multipart/related; type='' @ dq @ js ''application/xop+xml'' @ dq
            @ js ''; start='' @ dq @ js ''<'' @ uuid_start env @ js ''>'' @ dq
            @ js ''; start-info='' @ dq @ js ''text/xml'' @ dq
            @ js ''; boundary='' @ uuid_boundary env
      in case action of
           None \<Rightarrow> contentType
         | Some a \<Rightarrow> if a \<noteq> [] then contentType @ js ''; '' @ a else contentType)"

definition primary_part :: "build_env \<Rightarrow> jsval \<Rightarrow> jsval" where
  "primary_part env data =
     JObj [(js ''Content-Type'',
              JStr (js ''application/xop+xml; charset=UTF-8; type='' @ dq @ js ''text/xml'' @ dq)),
           (js ''Content-ID'', JStr (js ''<'' @ uuid_start env @ js ''>'')),
           (js ''body'', data)]"

definition attachment_part :: "attachment \<Rightarrow> jsval" where
  "attachment_part a =
     JObj [(js ''Content-Type'', JStr (mimetype a)),
           (js ''Content-Transfer-Encoding'', JStr (js ''binary'')),
           (js ''Content-ID'', JStr (js ''<'' @ contentId a @ js ''>'')),
           (js ''Content-Disposition'',
              JStr (js ''attachment; filename='' @ dq @ name a @ dq)),
           (js ''body'', JStream (body a))]"

definition mergeOptions :: "jstring list" where
  "mergeOptions = [js ''headers'']"

text \<open>
  The names a \<open>for ... in\<close> loop visits and the member read \<open>v[key]\<close>, for the plain
  objects that \<open>IHeaders\<close> declares; \<open>undefined\<close> and \<open>null\<close> have no names.
\<close>

definition keys_of :: "jsval \<Rightarrow> jstring list" where
  "keys_of v = (case v of JObj kvs \<Rightarrow> map fst kvs | _ \<Rightarrow> [])"

definition member :: "jsval \<Rightarrow> jstring \<Rightarrow> jsval" where
  "member v k = (case v of JObj kvs \<Rightarrow> get_prop kvs k | _ \<Rightarrow> JUndefined)"

text \<open>
  \<open>target[header] = value\<close>: an assignment of a property. On a \<open>Headers\<close> instance it
  adds an ordinary property and leaves the header list alone.
\<close>

definition assign_member :: "jstring \<Rightarrow> jsval \<Rightarrow> jsval \<Rightarrow> jsval" where
  "assign_member k v target =
     (case target of
        JObj kvs \<Rightarrow> JObj (set_prop k v kvs)
      | JHeaders m p \<Rightarrow> JHeaders m (set_prop k v p)
      | other \<Rightarrow> other)"

text \<open>
  \<open>options[attr][header] = exoptions[attr][header]\<close>; \<open>options[attr]\<close> is an object
  wherever the loop reaches this statement.
\<close>

definition merge_member :: "js_object \<Rightarrow> jstring \<Rightarrow> jstring \<Rightarrow> js_object \<Rightarrow> js_object" where
  "merge_member exoptions attr header options =
     set_prop attr
       (assign_member header (member (get_prop exoptions attr) header) (get_prop options attr))
       options"

text \<open>One round of the loop \<open>for (const attr in _.omit(exoptions, ['attachments']))\<close>.\<close>

definition merge_step :: "js_object \<Rightarrow> jstring \<Rightarrow> js_object \<Rightarrow> js_object" where
  "merge_step exoptions attr options =
     (if attr \<in> set mergeOptions
      then fold (merge_member exoptions attr) (keys_of (get_prop exoptions attr)) options
      else set_prop attr (get_prop exoptions attr) options)"

definition merge_exoptions :: "js_object \<Rightarrow> js_object \<Rightarrow> js_object" where
  "merge_exoptions exoptions options =
     fold (merge_step exoptions)
       (filter (\<lambda>k. k \<noteq> js ''attachments'') (map fst exoptions)) options"

text \<open>
  The header object of \<open>buildRequest\<close> up to the end of the loop over
  \<open>exheaders\<close>: the base headers, \<open>Content-Length\<close> and \<open>Content-Type\<close> for a
  plain string payload, then the caller's headers.
\<close>

definition mtom_selected :: "js_object \<Rightarrow> bool" where
  "mtom_selected exoptions =
     (truthy (get_prop exoptions (js ''forceMTOM'')) \<or> length (attachments_of exoptions) > 0)"

definition plain_selected :: "jsval \<Rightarrow> js_object \<Rightarrow> bool" where
  "plain_selected data exoptions =
     (is_string data \<and> length (attachments_of exoptions) = 0
      \<and> \<not> truthy (get_prop exoptions (js ''forceMTOM'')))"

definition request_headers ::
  "build_env \<Rightarrow> jsval \<Rightarrow> header_list \<Rightarrow> js_object \<Rightarrow> header_list" where
  "request_headers env data exheaders exoptions =
     (let headers = base_headers env exoptions;
          headers =
            (if plain_selected data exoptions
             then headers_set (js ''Content-Type'') (js ''application/x-www-form-urlencoded'')
                    (headers_set (js ''Content-Length'')
                       (show_nat (byteLength (case data of JStr s \<Rightarrow> s | _ \<Rightarrow> []))) headers)
             else headers)
      in fold (\<lambda>(attr, v) h. headers_set attr v h) exheaders headers)"

text \<open>The object literal that \<open>options\<close> starts from, around the header object \<open>h\<close>.\<close>

definition initial_options :: "jstring \<Rightarrow> jsval \<Rightarrow> header_list \<Rightarrow> js_object" where
  "initial_options rurl data h =
     [(js ''uri'', JStr rurl),
      (js ''method'', JStr (if truthy data then js ''POST'' else js ''GET'')),
      (js ''headers'', JHeaders h []),
      (js ''redirect'', JStr (js ''follow''))]"

text \<open>
  \<open>buildRequest(rurl, data, exheaders, exoptions)\<close>; an absent \<open>exheaders\<close> or
  \<open>exoptions\<close> is \<open>None\<close>. \<open>options.headers\<close> is the object \<open>headers\<close> itself, so the
  \<open>headers.set\<close> of the multipart branch, which runs after \<open>options\<close> is created, shows
  in the descriptor: the model creates the descriptor from the header list as it is after
  that call. \<open>headers.get('content-type')\<close> is \<open>null\<close> when the header is absent, and
  \<open>null.indexOf\<close> throws a \<open>TypeError\<close>.
\<close>

definition null_indexOf :: js_error where
  "null_indexOf = TypeError (js ''Cannot read property 'indexOf' of null'')"

definition buildRequest ::
  "build_env \<Rightarrow> jstring \<Rightarrow> jsval \<Rightarrow> header_list option \<Rightarrow> js_object option
     \<Rightarrow> js_error + js_object" where
  "buildRequest env rurl data exheaders0 exoptions0 =
     (let exoptions = (case exoptions0 of None \<Rightarrow> [] | Some e \<Rightarrow> e);
          exheaders = (case exheaders0 of None \<Rightarrow> [] | Some e \<Rightarrow> e);
          headers = request_headers env data exheaders exoptions
      in if mtom_selected exoptions
         then (case headers_get (js ''content-type'') headers of
                 None \<Rightarrow> Inl null_indexOf
               | Some contentType \<Rightarrow>
                   let headers' =
                         headers_set (js ''Content-Type'')
                           (mtom_content_type env (find_action contentType)) headers;
                       multipart =
                         primary_part env data # map attachment_part (attachments_of exoptions)
                   in Inr (merge_exoptions exoptions
                             (set_prop (js ''multipart'') (JArr multipart)
                                (initial_options rurl data headers'))))
         else Inr (merge_exoptions exoptions
                     (set_prop (js ''body'') data (initial_options rurl data headers))))"

text \<open>The header list of a request descriptor, as \<open>fetch\<close> and \<open>headers.get\<close> see it.\<close>

definition effective_headers :: "js_object \<Rightarrow> header_list" where
  "effective_headers options =
     (case get_prop options (js ''headers'') of JHeaders m p \<Rightarrow> m | _ \<Rightarrow> [])"

text \<open>Whether the caller's headers name \<open>k\<close>, in any letter case.\<close>

definition has_header :: "jstring \<Rightarrow> header_list option \<Rightarrow> bool" where
  "has_header k exheaders =
     (\<exists>(a, v) \<in> set (case exheaders of None \<Rightarrow> [] | Some e \<Rightarrow> e). lowercase a = lowercase k)"

text \<open>\<open>exoptions\<close> with its default \<open>{}\<close>.\<close>

definition opts :: "js_object option \<Rightarrow> js_object" where
  "opts exoptions = (case exoptions of None \<Rightarrow> [] | Some e \<Rightarrow> e)"

text \<open>The header list of a value that is a \<open>Headers\<close> instance.\<close>

definition header_list_of :: "jsval \<Rightarrow> header_list option" where
  "header_list_of v = (case v of JHeaders m p \<Rightarrow> Some m | _ \<Rightarrow> None)"

text \<open>Reading a header, or a property, of the descriptor that \<open>buildRequest\<close> returns.\<close>

definition result_header :: "jstring \<Rightarrow> js_error + js_object \<Rightarrow> jstring option" where
  "result_header k r =
     (case r of Inl e \<Rightarrow> None | Inr d \<Rightarrow> headers_get k (effective_headers d))"

definition result_prop :: "jstring \<Rightarrow> js_error + js_object \<Rightarrow> jsval option" where
  "result_prop k r = (case r of Inl e \<Rightarrow> None | Inr d \<Rightarrow> Some (get_prop d k))"


text \<open>
  An example environment: what \<open>url.parse\<close> returns for
  \<open>http://example.com:80/service\<close>, and two identifiers.
\<close>

definition example_url :: jstring where
  "example_url = js ''http://example.com:80/service''"

definition example_env :: build_env where
  "example_env =
     \<lparr>VERSION = js ''0.25.0'',
      curl = \<lparr>protocol = Some (js ''http:''), hostname = Some (js ''example.com''),
               port = Some (js ''80''), pathname = Some (js ''/service''),
               search = None, hash = None\<rparr>,
      uuid_start = js ''11111111-1111-4111-8111-111111111111'',
      uuid_boundary = js ''22222222-2222-4222-8222-222222222222''\<rparr>"

text \<open>The default port of a scheme, as the protocol component of \<open>url.parse\<close> names it.\<close>

definition default_port :: "jstring option \<Rightarrow> jstring option" where
  "default_port proto =
     (if proto = Some (js ''http:'') then Some (js ''80'')
      else if proto = Some (js ''https:'') then Some (js ''443'')
      else None)"

text \<open>
  Whether the caller names the header \<open>k\<close>, in any letter case, in \<open>exheaders\<close> or
  in the \<open>headers\<close> entry of \<open>exoptions\<close>.
\<close>

definition option_names_header :: "jstring \<Rightarrow> js_object option \<Rightarrow> bool" where
  "option_names_header k exoptions =
     (\<exists>a \<in> set (keys_of (get_prop (opts exoptions) (js ''headers''))). lowercase a = lowercase k)"

definition caller_names_header :: "jstring \<Rightarrow> header_list option \<Rightarrow> js_object option \<Rightarrow> bool" where
  "caller_names_header k exheaders exoptions =
     (has_header k exheaders \<or> option_names_header k exoptions)"

text \<open>Whether \<open>exoptions\<close> has the key \<open>k\<close>.\<close>

definition has_option :: "jstring \<Rightarrow> js_object option \<Rightarrow> bool" where
  "has_option k exoptions = (k \<in> fst ` set (opts exoptions))"

text \<open>
  A port as a URL normally writes it: decimal digits without a leading zero, few enough
  for a JavaScript number to hold the value exactly.
\<close>

definition canonical_port :: "jstring \<Rightarrow> bool" where
  "canonical_port ds =
     (ds \<noteq> [] \<and> (\<forall>c \<in> set ds. is_digit c) \<and> (hd ds \<noteq> 0x30 \<or> ds = [0x30])
      \<and> length ds \<le> 15)"

text \<open>Whether \<open>buildRequest\<close> returned a descriptor rather than throwing.\<close>

definition returns :: "js_error + js_object \<Rightarrow> bool" where
  "returns r = (case r of Inl e \<Rightarrow> False | Inr d \<Rightarrow> True)"

text \<open>The example environment for the URL \<open>http://example.com:8080/service\<close>.\<close>

definition example_env_8080 :: build_env where
  "example_env_8080 =
     \<lparr>VERSION = js ''0.25.0'',
      curl = \<lparr>protocol = Some (js ''http:''), hostname = Some (js ''example.com''),
               port = Some (js ''8080''), pathname = Some (js ''/service''),
               search = None, hash = None\<rparr>,
      uuid_start = js ''11111111-1111-4111-8111-111111111111'',
      uuid_boundary = js ''22222222-2222-4222-8222-222222222222''\<rparr>"




definition xml_headers :: "header_list option" where
  "xml_headers = Some [(js ''Content-Type'', js ''text/xml; charset=utf-8'')]"

text \<open>The ordinary properties that were assigned on a \<open>Headers\<close> instance.\<close>

definition header_props :: "jsval \<Rightarrow> js_object" where
  "header_props v = (case v of JHeaders m p \<Rightarrow> p | _ \<Rightarrow> [])"

section \<open>The response normalizer\<close>

subsection \<open>Regular expressions\<close>

text \<open>
  The two regular expressions of \<open>handleResponse\<close> are values of the type \<open>rx\<close>, and
  \<open>matcher\<close> is a backtracking matcher in the style of the ECMAScript specification:
  it takes the expression, a continuation for the rest of the pattern and a state (the
  input that is left, and the captures), and returns the final state of the first
  successful path. \<open>RStar\<close> is the greedy \<open>*\<close>, \<open>RLazy\<close> is \<open>*?\<close>, \<open>ROpt\<close> is the
  greedy \<open>?\<close>; an iteration of a star that consumes nothing is rejected. \<open>cn\<close> is the
  canonicalization of characters: the identity, or case folding under the flag \<open>i\<close>.
  The character classes of the two expressions contain no cased character, so a class
  is a predicate on the input character.
\<close>

datatype rx =
    REps
  | RChar jchar
  | RSet "jchar \<Rightarrow> bool"
  | RSeq rx rx
  | ROpt rx
  | RStar rx
  | RLazy rx
  | RGroup nat rx
  | RBackref nat

type_synonym mstate = "jstring \<times> (nat \<times> jstring) list"

function matcher :: "(jchar \<Rightarrow> jchar) \<Rightarrow> rx \<Rightarrow> (mstate \<Rightarrow> mstate option) \<Rightarrow> mstate \<Rightarrow> mstate option" where
  "matcher cn REps k s = k s"
| "matcher cn (RChar c) k s =
     (case fst s of [] \<Rightarrow> None | x # xs \<Rightarrow> if cn x = cn c then k (xs, snd s) else None)"
| "matcher cn (RSet P) k s =
     (case fst s of [] \<Rightarrow> None | x # xs \<Rightarrow> if P x then k (xs, snd s) else None)"
| "matcher cn (RSeq a b) k s = matcher cn a (\<lambda>s'. matcher cn b k s') s"
| "matcher cn (ROpt r) k s =
     (case matcher cn r k s of Some m \<Rightarrow> Some m | None \<Rightarrow> k s)"
| "matcher cn (RStar r) k s =
     (case matcher cn r
             (\<lambda>s'. if length (fst s') < length (fst s) then matcher cn (RStar r) k s' else None) s of
        Some m \<Rightarrow> Some m
      | None \<Rightarrow> k s)"
| "matcher cn (RLazy r) k s =
     (case k s of
        Some m \<Rightarrow> Some m
      | None \<Rightarrow>
          matcher cn r
            (\<lambda>s'. if length (fst s') < length (fst s) then matcher cn (RLazy r) k s' else None) s)"
| "matcher cn (RGroup n r) k s =
     matcher cn r
       (\<lambda>s'. k (fst s', (n, take (length (fst s) - length (fst s')) (fst s)) # snd s')) s"
| "matcher cn (RBackref n) k s =
     (case map_of (snd s) n of
        None \<Rightarrow> k s
      | Some g \<Rightarrow>
          if length g \<le> length (fst s) \<and> map cn (take (length g) (fst s)) = map cn g
          then k (drop (length g) (fst s), snd s) else None)"
  by pat_completeness auto
termination
  by (relation "measures [\<lambda>(cn, r, k, s). size r, \<lambda>(cn, r, k, s). length (fst s)]") auto

declare matcher.simps [simp del]

text \<open>
  The leftmost match: \<open>rx_search\<close> tries each start position in turn and returns the
  position and the length of the first match.
\<close>

fun rx_search :: "(jchar \<Rightarrow> jchar) \<Rightarrow> rx \<Rightarrow> nat \<Rightarrow> jstring \<Rightarrow> (nat \<times> nat) option" where
  "rx_search cn r i [] =
     (case matcher cn r Some ([], []) of Some m \<Rightarrow> Some (i, 0) | None \<Rightarrow> None)"
| "rx_search cn r i (x # xs) =
     (case matcher cn r Some (x # xs, []) of
        Some m \<Rightarrow> Some (i, length (x # xs) - length (fst m))
      | None \<Rightarrow> rx_search cn r (Suc i) xs)"

text \<open>A sequence of pattern characters.\<close>

definition rx_lit :: "jstring \<Rightarrow> rx" where
  "rx_lit s = foldr (\<lambda>c r. RSeq (RChar c) r) s REps"

text \<open>
  \<open>s.match(r)\<close> for an expression without the flag \<open>g\<close>: element \<open>0\<close> of the result,
  the matched text, or \<open>None\<close> for \<open>null\<close>. \<open>s.replace(r, new)\<close> replaces the first
  match only.
\<close>

definition str_match :: "(jchar \<Rightarrow> jchar) \<Rightarrow> rx \<Rightarrow> jstring \<Rightarrow> jstring option" where
  "str_match cn r s =
     (case rx_search cn r 0 s of None \<Rightarrow> None | Some (i, n) \<Rightarrow> Some (take n (drop i s)))"

definition str_replace :: "(jchar \<Rightarrow> jchar) \<Rightarrow> rx \<Rightarrow> jstring \<Rightarrow> jstring \<Rightarrow> jstring" where
  "str_replace cn r new s =
     (case rx_search cn r 0 s of None \<Rightarrow> s | Some (i, n) \<Rightarrow> take i s @ new @ drop (i + n) s)"

text \<open>
  \<open>Canonicalize\<close> under the flag \<open>i\<close> (without \<open>u\<close>): the upper case of the
  character, except that a character outside ASCII is never mapped into ASCII. \<open>uc\<close> is
  the upper-case table of the engine for the characters outside ASCII, a parameter.
\<close>

definition upper_ascii :: "jchar \<Rightarrow> jchar" where
  "upper_ascii c = (if 0x61 \<le> c \<and> c \<le> 0x7A then c - 0x20 else c)"

definition canonicalize :: "(jchar \<Rightarrow> jchar) \<Rightarrow> jchar \<Rightarrow> jchar" where
  "canonicalize uc ch =
     (if ch < 0x80 then upper_ascii ch
      else let cu = uc ch in if cu < 0x80 then ch else cu)"

subsection \<open>\<open>HttpClient.handleResponse\<close>\<close>

text \<open>\<open>[\s\S]\<close> and \<open>[\S\s]\<close>: every character.\<close>

definition any_char :: "jchar \<Rightarrow> bool" where
  "any_char c = True"

text \<open>\<^verbatim>\<open>/<!--[\s\S]*?-->/\<close>\<close>

definition comment_rx :: rx where
  "comment_rx = RSeq (rx_lit (js ''<!--'')) (RSeq (RLazy (RSet any_char)) (rx_lit (js ''-->'')))"

text \<open>
  \<^verbatim>\<open>/(?:<\?[^?]*\?>[\s]*)?<([^:]*):Envelope([\S\s]*)<\/\1:Envelope>/i\<close>, in three
  parts: the declaration \<^verbatim>\<open><\?[^?]*\?>[\s]*\<close> of the optional group, the end
  \<^verbatim>\<open><\/\1:Envelope>\<close>, and the whole expression.
\<close>

definition declaration_rx :: rx where
  "declaration_rx =
     RSeq (rx_lit (js ''<?''))
       (RSeq (RStar (RSet (\<lambda>c. c \<noteq> 0x3F)))
          (RSeq (rx_lit (js ''?>'')) (RStar (RSet is_space))))"

definition close_rx :: rx where
  "close_rx = RSeq (rx_lit (js ''</'')) (RSeq (RBackref 1) (rx_lit (js '':Envelope>'')))"

definition tag_pair_rx :: rx where
  "tag_pair_rx =
     RSeq (RChar 0x3C)
       (RSeq (RGroup 1 (RStar (RSet (\<lambda>c. c \<noteq> 0x3A))))
          (RSeq (rx_lit (js '':Envelope''))
             (RSeq (RGroup 2 (RStar (RSet any_char))) close_rx)))"

definition envelope_rx :: rx where
  "envelope_rx = RSeq (ROpt declaration_rx) tag_pair_rx"

text \<open>
  \<open>handleResponse(req, res, body)\<close>; only \<open>body\<close> is read. A body that is not a
  string is returned as it is.
\<close>

definition handleResponse :: "(jchar \<Rightarrow> jchar) \<Rightarrow> jsval \<Rightarrow> jsval" where
  "handleResponse uc rbody =
     (case rbody of
        JStr s \<Rightarrow>
          (case str_match (canonicalize uc) envelope_rx (str_replace id comment_rx [] s) of
             Some m \<Rightarrow> JStr m
           | None \<Rightarrow> JStr s)
      | other \<Rightarrow> other)"

subsection \<open>What the matcher computes, in terms of strings\<close>

text \<open>
  \<open>ci_prefix cn l xs\<close>: the text \<open>xs\<close> begins with the characters of \<open>l\<close>, up to
  canonicalization.
\<close>

definition ci_eq :: "(jchar \<Rightarrow> jchar) \<Rightarrow> jstring \<Rightarrow> jstring \<Rightarrow> bool" where
  "ci_eq cn a b = (map cn a = map cn b)"

definition ci_prefix :: "(jchar \<Rightarrow> jchar) \<Rightarrow> jstring \<Rightarrow> jstring \<Rightarrow> bool" where
  "ci_prefix cn l xs = (length l \<le> length xs \<and> map cn (take (length l) xs) = map cn l)"

text \<open>
  The greedy star of a character class, with the continuation \<open>k\<close> and the captures
  \<open>cs\<close>: the longest run first, then each shorter one.
\<close>

fun greedy ::
  "(jchar \<Rightarrow> bool) \<Rightarrow> (mstate \<Rightarrow> mstate option) \<Rightarrow> (nat \<times> jstring) list \<Rightarrow> jstring
     \<Rightarrow> mstate option" where
  "greedy P k cs [] = k ([], cs)"
| "greedy P k cs (x # xs) =
     (if P x then (case greedy P k cs xs of Some m \<Rightarrow> Some m | None \<Rightarrow> k (x # xs, cs))
      else k (x # xs, cs))"

text \<open>
  The matcher of the expression after the prefix group: \<open>:Envelope\<close>, the second
  group, and the closing tag.
\<close>

definition after_prefix ::
  "(jchar \<Rightarrow> jchar) \<Rightarrow> (mstate \<Rightarrow> mstate option) \<Rightarrow> mstate \<Rightarrow> mstate option" where
  "after_prefix cn k s =
     matcher cn
       (RSeq (rx_lit (js '':Envelope'')) (RSeq (RGroup 2 (RStar (RSet any_char))) close_rx)) k s"

text \<open>
  A text that has an opening tag \<open><p:Envelope\<close> and, after it, a closing tag
  \<open></p:Envelope>\<close> with the same prefix \<open>p\<close>, which has no colon; the prefix and the
  name are compared up to canonicalization. \<open>has_envelope_pair\<close>: some part of the text
  begins with such a pair.
\<close>

definition envelope_pair_at :: "(jchar \<Rightarrow> jchar) \<Rightarrow> jstring \<Rightarrow> bool" where
  "envelope_pair_at cn xs =
     (\<exists>p ot mid p' ct rest.
        xs = js ''<'' @ p @ ot @ mid @ js ''</'' @ p' @ ct @ rest
        \<and> 0x3A \<notin> set p \<and> ci_eq cn ot (js '':Envelope'') \<and> ci_eq cn p' p
        \<and> ci_eq cn ct (js '':Envelope>''))"

definition has_envelope_pair :: "(jchar \<Rightarrow> jchar) \<Rightarrow> jstring \<Rightarrow> bool" where
  "has_envelope_pair cn xs = (\<exists>pre ys. xs = pre @ ys \<and> envelope_pair_at cn ys)"

text \<open>The text that is matched against the envelope expression.\<close>

definition without_first_comment :: "jstring \<Rightarrow> jstring" where
  "without_first_comment s = str_replace id comment_rx [] s"





section \<open>Sending a request\<close>

subsection \<open>Responses and callbacks\<close>

text \<open>
  A response of \<open>fetch\<close>: the fields the client reads, what the promise of
  \<open>res.text()\<close> settles to (\<open>Inl\<close> when it rejects), and the fields that
  \<open>requestWrapper\<close> adds, \<open>None\<close> while they are not set.
\<close>

record response =
  status :: int
  statusText :: jstring
  res_headers :: header_list
  res_body :: jsval
  res_text :: "js_error + jstring"
  statusCode :: "int option"
  statusMessage :: "jstring option"
  elapsedTime :: "int option"
  requestHeaders :: "header_list option"
  responseHeaders :: "header_list option"

text \<open>How the promise of a \<open>fetch\<close> settles. \<open>fetch\<close> resolves for every status.\<close>

datatype fetch_result = Resolved response | Rejected js_error

text \<open>
  The arguments \<open>(error, res, body)\<close> of one call of a callback; an argument that is
  left out is \<open>undefined\<close>, and an error that is \<open>null\<close> or left out is \<open>None\<close>.
  An error is an object, so \<open>if (error)\<close> holds exactly for \<open>Some\<close>.
\<close>

type_synonym cb_args = "js_error option \<times> response option \<times> jsval"

text \<open>
  A callback changes the state \<open>'s\<close> of its owner and returns, or throws (\<open>Some\<close>).
\<close>

type_synonym 's callback = "cb_args \<Rightarrow> 's \<Rightarrow> js_error option \<times> 's"

text \<open>
  What one call of \<open>request\<close> meets outside the client: the environment of
  \<open>buildRequest\<close>, the upper-case table, how the handshake \<open>fetch\<close> and the
  \<open>fetch\<close> of \<open>requestWrapper\<close> settle, the two readings of \<open>Date.now()\<close>, and the
  functions of the module \<open>httpntlm/ntlm\<close> (\<open>type3\<close> is
  \<open>createType3Message(parseType2Message(auth), authOpts)\<close>, which may throw;
  \<open>createType1Message\<close> is taken to return).
\<close>

record world =
  benv :: build_env
  upper_case :: "jchar \<Rightarrow> jchar"
  probe :: fetch_result
  exchange :: fetch_result
  now_start :: int
  now_end :: int
  createType1Message :: "js_object \<Rightarrow> jstring"
  type3 :: "jstring \<Rightarrow> js_object \<Rightarrow> js_error + jstring"

subsection \<open>\<open>requestWrapper\<close>, the default transport executor\<close>

text \<open>\<open>new Headers(v)\<close> for the \<open>headers\<close> entry of a descriptor.\<close>

definition headers_copy :: "jsval \<Rightarrow> header_list" where
  "headers_copy v =
     (case v of
        JHeaders m p \<Rightarrow> m
      | JObj kvs \<Rightarrow>
          headers_init (map (\<lambda>(k, x). (k, case x of JStr s \<Rightarrow> s | _ \<Rightarrow> [])) kvs)
      | _ \<Rightarrow> [])"

text \<open>
  The handler of \<open>then\<close>: the fields it sets on the response. The block that would turn
  a status outside 2xx into an error is commented out in the source.
\<close>

definition complete_response :: "world \<Rightarrow> js_object \<Rightarrow> response \<Rightarrow> response" where
  "complete_response w options r =
     r\<lparr>statusCode := Some (status r),
       statusMessage := Some (statusText r),
       elapsedTime := Some (now_end w - now_start w),
       requestHeaders := Some (headers_copy (get_prop options (js ''headers''))),
       responseHeaders := Some (res_headers r)\<rparr>"

text \<open>
  \<open>requestWrapper(options, callback)\<close>. The callback runs inside the handler of
  \<open>then\<close>, so what it throws there reaches the handler of \<open>catch\<close>, which calls it
  again with the error.
\<close>

definition requestWrapper :: "world \<Rightarrow> js_object \<Rightarrow> 's callback \<Rightarrow> 's \<Rightarrow> js_error option \<times> 's" where
  "requestWrapper w options callback st =
     (case exchange w of
        Resolved r \<Rightarrow>
          (case callback (None, Some (complete_response w options r), res_body r) st of
             (None, st') \<Rightarrow> (None, st')
           | (Some err, st') \<Rightarrow> (None, snd (callback (Some err, None, JUndefined) st')))
      | Rejected err \<Rightarrow> (None, snd (callback (Some err, None, JUndefined) st)))"

text \<open>A callback that records its arguments and returns.\<close>

definition recording :: "cb_args list callback" where
  "recording args st = (None, st @ [args])"

subsection \<open>\<open>HttpClient.request\<close>\<close>

text \<open>
  The state of one call of \<open>request\<close>: whether the function made by \<open>_.once\<close> has run,
  the calls of the caller's callback so far, the descriptors handed to the request
  handler, and the handshake requests (URL and headers).
\<close>

record req_state =
  called :: bool
  user_calls :: "cb_args list"
  sent :: "js_object list"
  probes :: "(jstring \<times> header_list) list"

definition initial_state :: req_state where
  "initial_state = \<lparr>called = False, user_calls = [], sent = [], probes = []\<rparr>"

text \<open>
  \<open>_callback = _.once(_callback)\<close>: the first call runs the caller's callback, every
  later one does nothing. The caller's callback is taken to return.
\<close>

definition once_callback :: "cb_args \<Rightarrow> req_state \<Rightarrow> req_state" where
  "once_callback args st =
     (if called st then st else st\<lparr>called := True, user_calls := user_calls st @ [args]\<rparr>)"

definition text_of_undefined :: js_error where
  "text_of_undefined = TypeError (js ''Cannot read property 'text' of undefined'')"

text \<open>
  The inner function \<open>callback\<close> of \<open>request\<close>. With a body that is not a string it
  calls \<open>res.text()\<close>, which throws when \<open>res\<close> is \<open>undefined\<close>; when the promise
  rejects, the handler of \<open>catch\<close> calls \<open>_callback(err, res)\<close> and the handler of
  \<open>then\<close> after it runs all the same, with the value the first one returned.
\<close>

definition callback :: "world \<Rightarrow> req_state callback" where
  "callback w args st =
     (case args of (error, res, rbody) \<Rightarrow>
        (case error of
           Some e \<Rightarrow> (None, once_callback (Some e, res, rbody) st)
         | None \<Rightarrow>
             if is_string rbody
             then (None, once_callback (None, res, handleResponse (upper_case w) rbody) st)
             else (case res of
                     None \<Rightarrow> (Some text_of_undefined, st)
                   | Some r \<Rightarrow>
                       (case res_text r of
                          Inr text \<Rightarrow>
                            (None, once_callback
                                     (None, Some r, handleResponse (upper_case w) (JStr text)) st)
                        | Inl err \<Rightarrow>
                            (None, once_callback
                                     (None, Some r, handleResponse (upper_case w) JUndefined)
                                     (once_callback (Some err, Some r, JUndefined) st))))))"

text \<open>
  The request handler of the client: \<open>requestWrapper\<close>, or the replacement given in the
  options of the constructor. A replacement is described by what it does in this call:
  the calls of its callback, in order; what the callback throws ends it.
\<close>

datatype handler = Default | Replacement "cb_args list"

fun run_calls :: "'s callback \<Rightarrow> cb_args list \<Rightarrow> 's \<Rightarrow> js_error option \<times> 's" where
  "run_calls cb [] st = (None, st)"
| "run_calls cb (a # as) st =
     (case cb a st of (None, st') \<Rightarrow> run_calls cb as st' | (Some e, st') \<Rightarrow> (Some e, st'))"

definition run_handler ::
  "world \<Rightarrow> handler \<Rightarrow> js_object \<Rightarrow> req_state callback \<Rightarrow> req_state
     \<Rightarrow> js_error option \<times> req_state" where
  "run_handler w h options cb st =
     (let st' = st\<lparr>sent := sent st @ [options]\<rparr>
      in case h of
           Default \<Rightarrow> requestWrapper w options cb st'
         | Replacement calls \<Rightarrow> run_calls cb calls st')"

definition handshake_failed :: js_error where
  "handshake_failed = Error (js ''Stage 1 NTLM handshake failed.'')"

text \<open>
  \<open>ntlmHandshake(rurl, authOpts)\<close>: how its promise settles. \<open>!auth\<close> holds for
  \<open>null\<close> and for the empty string.
\<close>

definition ntlmHandshake :: "world \<Rightarrow> jstring \<Rightarrow> js_object \<Rightarrow> js_error + jstring" where
  "ntlmHandshake w rurl authOpts =
     (case probe w of
        Rejected err \<Rightarrow> Inl err
      | Resolved r \<Rightarrow>
          (case headers_get (js ''www-authenticate'') (res_headers r) of
             None \<Rightarrow> Inl handshake_failed
           | Some auth \<Rightarrow> if auth = [] then Inl handshake_failed else type3 w auth authOpts))"

definition handshake_headers :: "world \<Rightarrow> js_object \<Rightarrow> header_list" where
  "handshake_headers w authOpts =
     headers_init [(js ''Connection'', js ''keep-alive''),
                   (js ''Authorization'', createType1Message w authOpts)]"

text \<open>
  \<open>request(rurl, data, _callback, exheaders, exoptions)\<close>, from the state \<open>st\<close>. The
  result is what the call throws, if anything, and the state when everything the call
  started has settled. What \<open>buildRequest\<close> or the handler throws outside the handshake
  leaves \<open>request\<close>; inside the handler of \<open>then\<close> it reaches the handler of \<open>catch\<close>.
\<close>

definition request ::
  "world \<Rightarrow> handler \<Rightarrow> jstring \<Rightarrow> jsval \<Rightarrow> header_list option \<Rightarrow> js_object option
     \<Rightarrow> req_state \<Rightarrow> js_error option \<times> req_state" where
  "request w h rurl data exheaders exoptions st =
     (case buildRequest (benv w) rurl data exheaders exoptions of
        Inl e \<Rightarrow> (Some e, st)
      | Inr options \<Rightarrow>
          if exoptions \<noteq> None \<and> js ''ntlm'' \<in> fst ` set (opts exoptions)
          then
            (let st1 = st\<lparr>probes := probes st @ [(rurl, handshake_headers w options)]\<rparr>
             in case ntlmHandshake w rurl options of
                  Inr auth \<Rightarrow>
                    (let headers =
                           headers_set (js ''Authorization'') auth
                             (headers_copy (get_prop options (js ''headers'')));
                         ntlmOptions = set_prop (js ''headers'') (JHeaders headers []) options
                     in case run_handler w h ntlmOptions (callback w) st1 of
                          (None, st2) \<Rightarrow> (None, st2)
                        | (Some err, st2) \<Rightarrow>
                            (None, snd (callback w (Some err, None, JUndefined) st2)))
                | Inl err \<Rightarrow> (None, snd (callback w (Some err, None, JUndefined) st1)))
          else run_handler w h options (callback w) st)"

text \<open>
  The invariant of the function made by \<open>_.once\<close>: the caller's callback has been called
  once if the function has run and not at all otherwise.
\<close>

definition once_inv :: "req_state \<Rightarrow> bool" where
  "once_inv st = (if called st then length (user_calls st) = 1 else user_calls st = [])"



text \<open>An example world: the server answers 500 and the body cannot be read.\<close>

definition example_response :: response where
  "example_response =
     \<lparr>status = 500, statusText = js ''Internal Server Error'',
      res_headers = [(js ''content-type'', js ''text/xml'')],
      res_body = JStream 7, res_text = Inl (TransportError (js ''aborted'')),
      statusCode = None, statusMessage = None, elapsedTime = None,
      requestHeaders = None, responseHeaders = None\<rparr>"

definition example_world :: world where
  "example_world =
     \<lparr>benv = example_env, upper_case = id,
      probe = Resolved example_response, exchange = Resolved example_response,
      now_start = 1000, now_end = 1042,
      createType1Message = (\<lambda>authOpts. js ''NTLM TlRMTVNTUAAB''),
      type3 = (\<lambda>auth authOpts. Inr (js ''NTLM TlRMTVNTUAAD''))\<rparr>"

section \<open>Properties of the request builder\<close>

lemma map_of_set_prop: "map_of (set_prop k v h) k' = (if k' = k then Some v else map_of h k')"
  by (induction h) auto

lemma get_prop_set_prop: "get_prop (set_prop k v h) k' = (if k' = k then v else get_prop h k')"
  by (simp add: get_prop_def map_of_set_prop)

lemma headers_get_set:
  "headers_get k' (headers_set k v h) =
     (if lowercase k' = lowercase k then Some v else headers_get k' h)"
  by (simp add: headers_get_def headers_set_def map_of_set_prop)

lemma headers_get_fold_other:
  "\<forall>(a, v) \<in> set ex. lowercase a \<noteq> lowercase k
   \<Longrightarrow> headers_get k (fold (\<lambda>(attr, v) h. headers_set attr v h) ex h) = headers_get k h"
  by (induction ex arbitrary: h) (auto simp: headers_get_set)

lemma lowercase_js:
  "lowercase (js ''content-type'') = js ''content-type''"
  "lowercase (js ''Content-Type'') = js ''content-type''"
  "lowercase (js ''Content-Length'') = js ''content-length''"
  "lowercase (js ''content-length'') = js ''content-length''"
  "lowercase (js ''Host'') = js ''host''"
  "lowercase (js ''host'') = js ''host''"
  by (simp_all add: lowercase_def lower_char_def js_def)

lemma headers_get_Nil: "headers_get k [] = None"
  by (simp add: headers_get_def)

lemma base_headers_no_content_type:
  "headers_get (js ''content-type'') (base_headers env ex) = None"
proof -
  have "headers_get (js ''content-type'') (base_headers env ex)
          = headers_get (js ''content-type'') []"
    unfolding base_headers_def headers_init_def
    by (rule headers_get_fold_other) (simp add: lowercase_def lower_char_def js_def)
  then show ?thesis by (simp add: headers_get_Nil)
qed

lemma get_prop_merge_member_other:
  "k \<noteq> attr \<Longrightarrow> get_prop (merge_member ex attr header options) k = get_prop options k"
  by (simp add: merge_member_def get_prop_set_prop)

lemma get_prop_fold_merge_member_other:
  "k \<noteq> attr \<Longrightarrow> get_prop (fold (merge_member ex attr) hs options) k = get_prop options k"
  by (induction hs arbitrary: options) (simp_all add: get_prop_merge_member_other)

lemma get_prop_merge_step_other:
  "k \<noteq> attr \<Longrightarrow> get_prop (merge_step ex attr options) k = get_prop options k"
  by (simp add: merge_step_def get_prop_set_prop get_prop_fold_merge_member_other)

lemma get_prop_merge_step_same:
  "attr \<notin> set mergeOptions \<Longrightarrow> get_prop (merge_step ex attr options) attr = get_prop ex attr"
  by (simp add: merge_step_def get_prop_set_prop)


lemma get_prop_fold_merge_copied:
  "k \<in> set ks \<Longrightarrow> k \<notin> set mergeOptions
   \<Longrightarrow> get_prop (fold (merge_step ex) ks options) k = get_prop ex k"
proof (induction ks arbitrary: options rule: rev_induct)
  case Nil then show ?case by simp
next
  case (snoc a ks)
  show ?case
  proof (cases "k = a")
    case True with snoc.prems show ?thesis by (simp add: get_prop_merge_step_same)
  next
    case False with snoc show ?thesis by (simp add: get_prop_merge_step_other)
  qed
qed


lemma merge_exoptions_copied:
  "k \<in> fst ` set ex \<Longrightarrow> k \<noteq> js ''attachments'' \<Longrightarrow> k \<noteq> js ''headers''
   \<Longrightarrow> get_prop (merge_exoptions ex options) k = get_prop ex k"
  unfolding merge_exoptions_def
  by (rule get_prop_fold_merge_copied) (auto simp: mergeOptions_def)

lemma header_list_of_assign:
  "header_list_of (assign_member k v t) = header_list_of t"
  by (cases t) (simp_all add: assign_member_def header_list_of_def)

lemma header_list_merge_member:
  "header_list_of (get_prop (merge_member ex attr header options) k) = header_list_of (get_prop options k)"
  by (simp add: merge_member_def get_prop_set_prop header_list_of_assign)

lemma header_list_fold_merge_member:
  "header_list_of (get_prop (fold (merge_member ex attr) hs options) k) = header_list_of (get_prop options k)"
  by (induction hs arbitrary: options) (simp_all add: header_list_merge_member)

lemma header_list_merge_step:
  "header_list_of (get_prop (merge_step ex attr options) (js ''headers'')) = header_list_of (get_prop options (js ''headers''))"
  by (simp add: merge_step_def header_list_fold_merge_member get_prop_set_prop mergeOptions_def)

lemma header_list_merge_exoptions:
  "header_list_of (get_prop (merge_exoptions ex options) (js ''headers'')) = header_list_of (get_prop options (js ''headers''))"
proof -
  have "header_list_of (get_prop (fold (merge_step ex) ks options) (js ''headers'')) = header_list_of (get_prop options (js ''headers''))" for ks
    by (induction ks arbitrary: options) (simp_all add: header_list_merge_step)
  then show ?thesis by (simp add: merge_exoptions_def)
qed

lemma effective_headers_eq: "effective_headers options = (case header_list_of (get_prop options (js ''headers'')) of None \<Rightarrow> [] | Some m \<Rightarrow> m)"
  by (simp add: effective_headers_def header_list_of_def split: jsval.splits)

lemma effective_headers_merge:
  "effective_headers (merge_exoptions ex options) = effective_headers options"
  by (simp add: effective_headers_eq header_list_merge_exoptions)

lemma effective_headers_initial:
  "effective_headers (set_prop k v (initial_options rurl data h)) = (if k = js ''headers'' then effective_headers [(k, v)] else h)"
  by (simp add: effective_headers_def initial_options_def get_prop_def js_def)

lemma headers_get_fold_present:
  "headers_get k h \<noteq> None \<or> (\<exists>(a, v) \<in> set ex. lowercase a = lowercase k)
   \<Longrightarrow> headers_get k (fold (\<lambda>(attr, v) h. headers_set attr v h) ex h) \<noteq> None"
proof (induction ex arbitrary: h)
  case Nil then show ?case by simp
next
  case (Cons p ex)
  obtain a v where p: "p = (a, v)" by (cases p)
  show ?case
  proof (cases "lowercase a = lowercase k")
    case True
    then have "headers_get k (headers_set a v h) \<noteq> None" by (simp add: headers_get_set)
    then show ?thesis using Cons.IH[of "headers_set a v h"] p by simp
  next
    case False
    with Cons.prems p have "headers_get k (headers_set a v h) \<noteq> None \<or> (\<exists>(a, v) \<in> set ex. lowercase a = lowercase k)"
      by (auto simp: headers_get_set)
    then show ?thesis using Cons.IH[of "headers_set a v h"] p by simp
  qed
qed

lemma request_headers_absent:
  assumes "\<not> has_header k (Some exh)" "headers_get k (base_headers env ex) = None"
      and "plain_selected data ex \<longrightarrow> lowercase k \<noteq> js ''content-type'' \<and> lowercase k \<noteq> js ''content-length''"
  shows "headers_get k (request_headers env data exh ex) = None"
proof -
  from assms(1) have no: "\<forall>(a, v) \<in> set exh. lowercase a \<noteq> lowercase k"
    by (auto simp: has_header_def)
  show ?thesis
    unfolding request_headers_def Let_def using assms(2,3)
    by (simp add: headers_get_fold_other[OF no] headers_get_set lowercase_js)
qed

lemma js_keys_distinct:
  "js ''body'' \<noteq> js ''headers''" "js ''multipart'' \<noteq> js ''headers''"
  "js ''body'' \<noteq> js ''attachments''" "js ''multipart'' \<noteq> js ''attachments''"
  by (simp_all add: js_def)

lemma buildRequest_plain:
  "\<not> mtom_selected (opts exoptions) \<Longrightarrow>
   buildRequest env rurl data exheaders exoptions =
     Inr (merge_exoptions (opts exoptions)
            (set_prop (js ''body'') data
               (initial_options rurl data
                  (request_headers env data (case exheaders of None \<Rightarrow> [] | Some e \<Rightarrow> e) (opts exoptions)))))"
  unfolding buildRequest_def Let_def opts_def by simp

lemma buildRequest_mtom:
  "mtom_selected (opts exoptions) \<Longrightarrow>
   headers_get (js ''content-type'')
     (request_headers env data (case exheaders of None \<Rightarrow> [] | Some e \<Rightarrow> e) (opts exoptions)) = Some ct \<Longrightarrow>
   buildRequest env rurl data exheaders exoptions =
     Inr (merge_exoptions (opts exoptions)
            (set_prop (js ''multipart'')
               (JArr (primary_part env data # map attachment_part (attachments_of (opts exoptions))))
               (initial_options rurl data
                  (headers_set (js ''Content-Type'') (mtom_content_type env (find_action ct))
                     (request_headers env data (case exheaders of None \<Rightarrow> [] | Some e \<Rightarrow> e) (opts exoptions))))))"
  unfolding buildRequest_def Let_def opts_def by simp



lemma digit_not_space: "is_digit c \<Longrightarrow> \<not> is_space c"
proof -
  assume d: "is_digit c"
  have "\<not> (0x2000 \<le> c)"
  proof
    assume "0x2000 \<le> c"
    moreover from d have "c \<le> 0x39" by (simp add: is_digit_def)
    ultimately have "(0x2000 :: jchar) \<le> 0x39" by (rule order_trans)
    then show False by simp
  qed
  with d show ?thesis by (auto simp: is_digit_def is_space_def)
qed

lemma parseInt_None: "parseInt None = None"
  by (simp add: parseInt_def str_or_null_def js_def is_space_def is_digit_def Let_def)

lemma parseInt_digits:
  assumes "ds \<noteq> []" "\<forall>c \<in> set ds. is_digit c"
  shows "parseInt (Some ds) = Some (int (digits_value ds))"
proof -
  from assms obtain c r where ds: "ds = c # r" by (cases ds) auto
  with assms have c: "is_digit c" by simp
  then have ns: "\<not> is_space c" by (rule digit_not_space)
  from c have sg: "c \<noteq> 0x2D" "c \<noteq> 0x2B" by (auto simp: is_digit_def)
  have tw: "takeWhile is_digit ds = ds" using assms(2) by (simp add: takeWhile_eq_all_conv)
  show ?thesis
    using ns sg tw assms(1) unfolding parseInt_def str_or_null_def Let_def ds by simp
qed

lemma show_int_nat: "show_int (int n) = show_nat n"
  by (simp add: show_int_def)

lemma digits_value_snoc: "digits_value (ds @ [c]) = 10 * digits_value ds + (unat c - 48)"
  by (simp add: digits_value_def)

lemma digit_of_digit: "is_digit c \<Longrightarrow> digit (unat c - 48) = c"
proof -
  assume "is_digit c"
  then have "48 \<le> unat c" by (simp add: is_digit_def word_le_nat_alt)
  then show ?thesis by (simp add: digit_def)
qed

lemma digit_value_lt: "is_digit c \<Longrightarrow> unat c - 48 < 10"
  unfolding is_digit_def word_le_nat_alt by simp arith

lemma show_nat_digits:
  assumes "ds \<noteq> []" "\<forall>c \<in> set ds. is_digit c" "hd ds \<noteq> 0x30"
  shows "0 < digits_value ds \<and> show_nat (digits_value ds) = ds"
  using assms
proof (induction ds rule: rev_induct)
  case Nil then show ?case by simp
next
  case (snoc c xs)
  from snoc.prems have c: "is_digit c" by simp
  show ?case
  proof (cases "xs = []")
    case True
    with snoc.prems have "c \<noteq> 0x30" by simp
    then have "unat c \<noteq> unat (0x30 :: jchar)" by (simp only: word_unat_eq_iff [symmetric] not_False_eq_True)
    with c have "48 < unat c"
      unfolding is_digit_def word_le_nat_alt by simp
    with digit_value_lt[OF c] digit_of_digit[OF c] True show ?thesis
      by (simp add: digits_value_def show_nat.simps)
  next
    case False
    with snoc.prems have "\<forall>c \<in> set xs. is_digit c" "hd xs \<noteq> 0x30" by auto
    with snoc.IH False have ih: "0 < digits_value xs" "show_nat (digits_value xs) = xs" by auto
    let ?v = "unat c - 48"
    have v: "?v < 10" by (rule digit_value_lt[OF c])
    have "show_nat (10 * digits_value xs + ?v) = show_nat ((10 * digits_value xs + ?v) div 10) @ [digit ((10 * digits_value xs + ?v) mod 10)]"
      using ih(1) by (subst show_nat.simps) simp
    also have "\<dots> = xs @ [c]" using v ih(2) digit_of_digit[OF c] by simp
    finally show ?thesis using ih(1) by (simp add: digits_value_snoc)
  qed
qed

lemma show_nat_canonical: "canonical_port ds \<Longrightarrow> show_nat (digits_value ds) = ds"
proof (cases "ds = [0x30]")
  case True then show ?thesis by (simp add: digits_value_def digit_def show_nat.simps)
next
  case False
  assume "canonical_port ds"
  with False show ?thesis using show_nat_digits[of ds] by (simp add: canonical_port_def)
qed

lemma base_headers_host:
  "headers_get (js ''Host'') (base_headers env ex) =
     Some (str_or_null (hostname (curl env)) @
           (case parseInt (port (curl env)) of None \<Rightarrow> [] | Some p \<Rightarrow> js '':'' @ show_int p))"
  by (simp add: base_headers_def headers_init_def headers_get_set)

lemma request_headers_other:
  assumes "\<not> has_header k (Some exh)"
      and "lowercase k \<noteq> js ''content-type''" "lowercase k \<noteq> js ''content-length''"
  shows "headers_get k (request_headers env data exh ex) = headers_get k (base_headers env ex)"
proof -
  from assms(1) have no: "\<forall>(a, v) \<in> set exh. lowercase a \<noteq> lowercase k"
    by (auto simp: has_header_def)
  show ?thesis
    unfolding request_headers_def Let_def using assms(2,3)
    by (simp add: headers_get_fold_other[OF no] headers_get_set lowercase_js)
qed

lemma buildRequest_headers:
  assumes "buildRequest env rurl data exheaders exoptions = Inr d"
      and "lowercase k \<noteq> js ''content-type''"
  shows "headers_get k (effective_headers d) =
         headers_get k (request_headers env data (case exheaders of None \<Rightarrow> [] | Some e \<Rightarrow> e) (opts exoptions))"
proof (cases "mtom_selected (opts exoptions)")
  case False
  from assms(1) show ?thesis unfolding buildRequest_plain[OF False]
    by (auto simp: effective_headers_merge effective_headers_initial js_keys_distinct)
next
  case True
  let ?h = "request_headers env data (case exheaders of None \<Rightarrow> [] | Some e \<Rightarrow> e) (opts exoptions)"
  from assms(1) True obtain ct where ct: "headers_get (js ''content-type'') ?h = Some ct"
    unfolding buildRequest_def Let_def opts_def by (auto split: option.splits)
  from assms show ?thesis unfolding buildRequest_mtom[OF True ct]
    by (auto simp: effective_headers_merge effective_headers_initial js_keys_distinct headers_get_set lowercase_js)
qed

lemma host_header_of_descriptor:
  assumes "buildRequest env rurl data exheaders exoptions = Inr d"
      and "\<not> caller_names_header (js ''Host'') exheaders exoptions"
  shows "(port (curl env) = None \<longrightarrow>
            headers_get (js ''Host'') (effective_headers d) = Some (str_or_null (hostname (curl env))))
       \<and> (\<forall>ds. port (curl env) = Some ds \<and> canonical_port ds \<longrightarrow>
            headers_get (js ''Host'') (effective_headers d)
              = Some (str_or_null (hostname (curl env)) @ js '':'' @ ds))"
proof -
  let ?exh = "case exheaders of None \<Rightarrow> [] | Some e \<Rightarrow> e"
  have ne: "lowercase (js ''Host'') \<noteq> js ''content-type''" "lowercase (js ''Host'') \<noteq> js ''content-length''"
    by (simp_all add: lowercase_js) (simp_all add: js_def)
  from assms(2) have nh: "\<not> has_header (js ''Host'') (Some ?exh)"
    by (simp add: caller_names_header_def has_header_def)
  have eq: "headers_get (js ''Host'') (effective_headers d) =
     Some (str_or_null (hostname (curl env)) @
           (case parseInt (port (curl env)) of None \<Rightarrow> [] | Some p \<Rightarrow> js '':'' @ show_int p))"
    using buildRequest_headers[OF assms(1) ne(1)] request_headers_other[OF nh ne, of env data "opts exoptions"]
    by (simp add: base_headers_host)
  show ?thesis
  proof (intro conjI impI allI)
    assume "port (curl env) = None"
    then show "headers_get (js ''Host'') (effective_headers d) = Some (str_or_null (hostname (curl env)))"
      using eq by (simp add: parseInt_None)
  next
    fix ds assume a: "port (curl env) = Some ds \<and> canonical_port ds"
    then have "parseInt (Some ds) = Some (int (digits_value ds))"
      by (intro parseInt_digits) (simp_all add: canonical_port_def)
    moreover from a have "show_int (int (digits_value ds)) = ds"
      by (simp only: show_int_nat show_nat_canonical)
    ultimately show "headers_get (js ''Host'') (effective_headers d)
              = Some (str_or_null (hostname (curl env)) @ js '':'' @ ds)"
      using eq a by simp
  qed
qed






lemma buildRequest_copies_options:
  assumes "buildRequest env rurl data exheaders exoptions = Inr d"
      and "has_option k exoptions" "k \<noteq> js ''attachments''" "k \<noteq> js ''headers''"
  shows "get_prop d k = get_prop (opts exoptions) k"
proof -
  have c: "get_prop (merge_exoptions (opts exoptions) x) k = get_prop (opts exoptions) k" for x
    using assms(2-4) unfolding has_option_def by (intro merge_exoptions_copied)
  show ?thesis
  proof (cases "mtom_selected (opts exoptions)")
    case False
    from assms(1) show ?thesis unfolding buildRequest_plain[OF False] using c by auto
  next
    case True
    let ?h = "request_headers env data (case exheaders of None \<Rightarrow> [] | Some e \<Rightarrow> e)
                (opts exoptions)"
    from assms(1) True obtain ct where ct: "headers_get (js ''content-type'') ?h = Some ct"
      unfolding buildRequest_def Let_def opts_def by (auto split: option.splits)
    from assms(1) show ?thesis unfolding buildRequest_mtom[OF True ct] using c by auto
  qed
qed

section \<open>Properties of the matcher\<close>

lemma canon_punct:
  assumes "c = 0x3C \<or> c = 0x3A \<or> c = 0x3F \<or> c = 0x2F"
  shows "canonicalize uc x = canonicalize uc c \<longleftrightarrow> x = c"
proof
  assume "x = c" then show "canonicalize uc x = canonicalize uc c" by simp
next
  assume e: "canonicalize uc x = canonicalize uc c"
  from assms have cc: "canonicalize uc c = c" "c < 0x80" "\<not> (0x41 \<le> c \<and> c \<le> 0x5A)"
    by (auto simp: canonicalize_def upper_ascii_def)
  show "x = c"
  proof (cases "x < 0x80")
    case False
    then have "\<not> canonicalize uc x < 0x80" by (simp add: canonicalize_def Let_def)
    with e cc show ?thesis by simp
  next
    case True
    show ?thesis
    proof (cases "0x61 \<le> x \<and> x \<le> 0x7A")
      case False
      with True e cc show ?thesis by (simp add: canonicalize_def upper_ascii_def)
    next
      case r: True
      with True e cc have "x - 0x20 = c" by (simp add: canonicalize_def upper_ascii_def)
      moreover from r have "0x41 \<le> x - 0x20 \<and> x - 0x20 \<le> 0x5A"
        by (simp add: word_le_nat_alt unat_sub; arith)
      ultimately show ?thesis using cc by simp
    qed
  qed
qed

lemma matcher_lit:
  "matcher cn (rx_lit l) k (xs, cs) =
     (if ci_prefix cn l xs then k (drop (length l) xs, cs) else None)"
proof (induction l arbitrary: xs)
  case Nil
  then show ?case by (simp add: rx_lit_def ci_prefix_def matcher.simps)
next
  case (Cons c l)
  have u: "rx_lit (c # l) = RSeq (RChar c) (rx_lit l)" by (simp add: rx_lit_def)
  show ?case
  proof (cases xs)
    case Nil
    then show ?thesis by (simp add: u matcher.simps ci_prefix_def)
  next
    case (Cons x xs')
    then show ?thesis using Cons.IH[of xs']
      by (auto simp: u matcher.simps ci_prefix_def)
  qed
qed

lemma matcher_star_set:
  "matcher cn (RStar (RSet P)) k (xs, cs) = greedy P k cs xs"
proof (induction xs)
  case Nil
  then show ?case by (simp add: matcher.simps)
next
  case (Cons x xs)
  show ?case
    by (subst matcher.simps) (simp add: matcher.simps(3) Cons.IH)
qed

lemma matcher_group_star:
  "matcher cn (RGroup n (RStar (RSet P))) k (xs, cs) =
     greedy P (\<lambda>s'. k (fst s', (n, take (length xs - length (fst s')) xs) # snd s')) cs xs"
  by (simp add: matcher.simps(8) matcher_star_set)

lemma matcher_seq: "matcher cn (RSeq a b) k s = matcher cn a (\<lambda>s'. matcher cn b k s') s"
  by (simp add: matcher.simps)

lemma matcher_char:
  "matcher cn (RChar c) k (xs, cs) =
     (case xs of [] \<Rightarrow> None | x # r \<Rightarrow> if cn x = cn c then k (r, cs) else None)"
  by (cases xs) (simp_all add: matcher.simps)

lemma matcher_opt:
  "matcher cn (ROpt r) k s = (case matcher cn r k s of Some m \<Rightarrow> Some m | None \<Rightarrow> k s)"
  by (simp add: matcher.simps)

lemma matcher_backref:
  "matcher cn (RBackref n) k (xs, cs) =
     (case map_of cs n of
        None \<Rightarrow> k (xs, cs)
      | Some g \<Rightarrow> if ci_prefix cn g xs then k (drop (length g) xs, cs) else None)"
  by (cases "map_of cs n") (simp_all add: matcher.simps ci_prefix_def)

lemma greedy_sound:
  "greedy P k cs xs = Some m \<Longrightarrow>
     \<exists>a b. xs = a @ b \<and> (\<forall>c \<in> set a. P c) \<and> k (b, cs) = Some m"
proof (induction xs)
  case Nil then show ?case by simp
next
  case (Cons x xs)
  show ?case
  proof (cases "P x \<and> greedy P k cs xs = Some m")
    case True
    with Cons.IH obtain a b where "xs = a @ b" "\<forall>c \<in> set a. P c" "k (b, cs) = Some m" by blast
    with True show ?thesis by (intro exI[of _ "x # a"] exI[of _ b]) simp
  next
    case False
    with Cons.prems have "k (x # xs, cs) = Some m" by (auto split: if_splits option.splits)
    then show ?thesis by (intro exI[of _ "[]"] exI[of _ "x # xs"]) simp
  qed
qed

lemma greedy_stop:
  assumes "\<forall>c \<in> set a. P c" "\<not> P y" "\<And>z zs. P z \<Longrightarrow> k (z # zs, cs) = None"
  shows "greedy P k cs (a @ y # r) = k (y # r, cs)"
  using assms(1)
proof (induction a)
  case Nil then show ?case using assms(2) by simp
next
  case (Cons x a)
  then show ?case using assms(3)[of x "a @ y # r"] by (simp split: option.splits)
qed

lemma any_char_True: "any_char c"
  by (simp add: any_char_def)



lemma ci_prefix_append:
  "ci_prefix cn (a @ b) xs \<longleftrightarrow> ci_prefix cn a xs \<and> ci_prefix cn b (drop (length a) xs)"
proof -
  have "take (length a + length b) xs = take (length a) xs @ take (length b) (drop (length a) xs)"
    by (simp add: take_add)
  then show ?thesis
    by (auto simp: ci_prefix_def)
qed

lemma ci_prefix_split:
  "ci_prefix cn l xs \<longleftrightarrow> (\<exists>a r. xs = a @ r \<and> ci_eq cn a l)"
proof
  assume "ci_prefix cn l xs"
  then have "xs = take (length l) xs @ drop (length l) xs \<and> ci_eq cn (take (length l) xs) l"
    by (simp add: ci_prefix_def ci_eq_def)
  then show "\<exists>a r. xs = a @ r \<and> ci_eq cn a l" by blast
next
  assume "\<exists>a r. xs = a @ r \<and> ci_eq cn a l"
  then obtain a r where x: "xs = a @ r" and e: "map cn a = map cn l" by (auto simp: ci_eq_def)
  from e have "length a = length l" by (rule map_eq_imp_length_eq)
  with x e show "ci_prefix cn l xs" by (simp add: ci_prefix_def)
qed

lemma ci_eq_length: "ci_eq cn a b \<Longrightarrow> length a = length b"
  unfolding ci_eq_def by (rule map_eq_imp_length_eq)

lemma ci_prefix_drop:
  "ci_eq cn a l \<Longrightarrow> ci_prefix cn l (a @ r) \<and> drop (length l) (a @ r) = r"
  by (frule ci_eq_length) (simp add: ci_prefix_def ci_eq_def)

lemma ci_prefix_Cons:
  "ci_prefix cn (c # l) xs \<longleftrightarrow> (\<exists>x r. xs = x # r \<and> cn x = cn c \<and> ci_prefix cn l r)"
  by (cases xs) (auto simp: ci_prefix_def)

lemma matcher_close:
  assumes "map_of cs 1 = Some p"
  shows "matcher cn close_rx k (zs, cs) =
     (if ci_prefix cn (js ''</'' @ p @ js '':Envelope>'') zs
      then k (drop (length (js ''</'' @ p @ js '':Envelope>'')) zs, cs) else None)"
  using assms unfolding close_rx_def
  by (simp add: matcher_seq matcher_lit matcher_backref ci_prefix_append ac_simps)


lemma matcher_tag_pair:
  "matcher cn tag_pair_rx k (xs, cs) =
     (case xs of
        [] \<Rightarrow> None
      | x # ys \<Rightarrow>
          if cn x = cn 0x3C
          then greedy (\<lambda>c. c \<noteq> 0x3A)
                 (\<lambda>s'. after_prefix cn k (fst s', (1, take (length ys - length (fst s')) ys) # snd s'))
                 cs ys
          else None)"
  unfolding tag_pair_rx_def after_prefix_def
  by (cases xs) (simp_all add: matcher_seq matcher_char matcher_group_star)

lemma after_prefix_eq:
  "after_prefix cn k (zs, cs) =
     (if ci_prefix cn (js '':Envelope'') zs
      then greedy any_char
             (\<lambda>s'. matcher cn close_rx k
                     (fst s',
                      (2, take (length (drop (length (js '':Envelope'')) zs) - length (fst s'))
                            (drop (length (js '':Envelope'')) zs)) # snd s'))
             cs (drop (length (js '':Envelope'')) zs)
      else None)"
  unfolding after_prefix_def
  by (simp only: matcher_seq matcher_lit matcher_group_star)

lemma after_prefix_needs_colon:
  "z \<noteq> 0x3A \<Longrightarrow> after_prefix (canonicalize uc) k (z # zs, cs) = None"
proof -
  assume "z \<noteq> 0x3A"
  then have "canonicalize uc z \<noteq> canonicalize uc 0x3A" by (simp add: canon_punct)
  then have "\<not> ci_prefix (canonicalize uc) (js '':Envelope'') (z # zs)"
    by (simp add: ci_prefix_def js_def)
  then show ?thesis by (simp add: after_prefix_eq)
qed

lemma ci_eq_append_split:
  "ci_eq cn a (l1 @ l2) \<Longrightarrow> \<exists>a1 a2. a = a1 @ a2 \<and> ci_eq cn a1 l1 \<and> ci_eq cn a2 l2"
  unfolding ci_eq_def by (fastforce simp: map_eq_append_conv)

lemma ci_eq_append: "ci_eq cn a1 l1 \<Longrightarrow> ci_eq cn a2 l2 \<Longrightarrow> ci_eq cn (a1 @ a2) (l1 @ l2)"
  by (simp add: ci_eq_def)

lemma ci_eq_refl: "ci_eq cn a a"
  by (simp add: ci_eq_def)

lemma ci_eq_close_open:
  "ci_eq (canonicalize uc) a (js ''</'') \<longleftrightarrow> a = js ''</''"
proof
  assume "ci_eq (canonicalize uc) a (js ''</'')"
  then obtain x y where a: "a = [x, y]"
    and "canonicalize uc x = canonicalize uc 0x3C" "canonicalize uc y = canonicalize uc 0x2F"
    by (auto simp: ci_eq_def js_def map_eq_Cons_conv)
  then have "x = 0x3C" "y = 0x2F" by (simp_all add: canon_punct)
  with a show "a = js ''</''" by (simp add: js_def)
qed (simp add: ci_eq_def)

lemma ci_eq_colon_first:
  "ci_eq (canonicalize uc) ot (js '':Envelope'') \<Longrightarrow> \<exists>r. ot = 0x3A # r"
proof -
  assume "ci_eq (canonicalize uc) ot (js '':Envelope'')"
  then obtain x r where o: "ot = x # r" and "canonicalize uc x = canonicalize uc 0x3A"
    by (auto simp: ci_eq_def js_def map_eq_Cons_conv)
  then have "x = 0x3A" by (simp add: canon_punct)
  with o show ?thesis by simp
qed

text \<open>A match of the tag pair is a pair of tags, and a pair of tags is matched.\<close>

lemma tag_pair_sound:
  assumes "matcher (canonicalize uc) tag_pair_rx k (ys, cs) = Some m"
  shows "envelope_pair_at (canonicalize uc) ys"
proof -
  let ?cn = "canonicalize uc"
  from assms obtain x ys1 where ys: "ys = x # ys1" and x: "?cn x = ?cn 0x3C"
    and g1: "greedy (\<lambda>c. c \<noteq> 0x3A)
               (\<lambda>s'. after_prefix ?cn k (fst s', (1, take (length ys1 - length (fst s')) ys1) # snd s'))
               cs ys1 = Some m"
    by (auto simp: matcher_tag_pair split: list.splits if_splits)
  from x have x': "x = 0x3C" by (simp add: canon_punct)
  from greedy_sound[OF g1] obtain p b where ys1: "ys1 = p @ b" and p: "\<forall>c \<in> set p. c \<noteq> 0x3A"
    and a: "after_prefix ?cn k (b, (1, p) # cs) = Some m"
    by auto
  from a have pre: "ci_prefix ?cn (js '':Envelope'') b"
    and g2: "greedy any_char
             (\<lambda>s'. matcher ?cn close_rx k
                     (fst s',
                      (2, take (length (drop (length (js '':Envelope'')) b) - length (fst s'))
                            (drop (length (js '':Envelope'')) b)) # snd s'))
             ((1, p) # cs) (drop (length (js '':Envelope'')) b) = Some m"
    by (auto simp: after_prefix_eq split: if_splits)
  from pre obtain ot b2 where b: "b = ot @ b2" and ot: "ci_eq ?cn ot (js '':Envelope'')"
    by (auto simp: ci_prefix_split)
  from ot have d: "drop (length (js '':Envelope'')) b = b2"
    using ci_prefix_drop[OF ot, of b2] b by simp
  from greedy_sound[OF g2] obtain mid b3 where b2: "b2 = mid @ b3"
    and c: "matcher ?cn close_rx k (b3, (2, mid) # (1, p) # cs) = Some m"
    unfolding d by auto
  have "map_of ((2, mid) # (1, p) # cs) (1::nat) = Some p" by simp
  from c have "ci_prefix ?cn (js ''</'' @ p @ js '':Envelope>'') b3"
    unfolding matcher_close[OF \<open>map_of ((2, mid) # (1, p) # cs) (1::nat) = Some p\<close>]
    by (simp split: if_splits)
  then obtain a rest where b3: "b3 = a @ rest" and "ci_eq ?cn a (js ''</'' @ p @ js '':Envelope>'')"
    by (auto simp: ci_prefix_split)
  then obtain c1 a' where "a = c1 @ a'" "ci_eq ?cn c1 (js ''</'')" "ci_eq ?cn a' (p @ js '':Envelope>'')"
    by (blast dest: ci_eq_append_split)
  moreover then obtain p' ct where "a' = p' @ ct" "ci_eq ?cn p' p" "ci_eq ?cn ct (js '':Envelope>'')"
    by (blast dest: ci_eq_append_split)
  ultimately have a: "a = js ''</'' @ p' @ ct" "ci_eq ?cn p' p" "ci_eq ?cn ct (js '':Envelope>'')"
    by (simp_all add: ci_eq_close_open)
  have "ys = js ''<'' @ p @ ot @ mid @ js ''</'' @ p' @ ct @ rest"
    by (simp add: ys x' ys1 b b2 b3 a js_def)
  with p ot a(2,3) show ?thesis
    unfolding envelope_pair_at_def by blast
qed

lemma greedy_all_some:
  assumes "\<And>c. P c" "k (b, cs) \<noteq> None"
  shows "greedy P k cs (a @ b) \<noteq> None"
proof (induction a)
  case Nil
  show ?case
  proof (cases b)
    case Nil with assms(2) show ?thesis by simp
  next
    case (Cons y b')
    with assms(2) assms(1)[of y] show ?thesis by (simp split: option.splits)
  qed
next
  case (Cons x a)
  then obtain m where "greedy P k cs (a @ b) = Some m" by auto
  then show ?case using assms(1)[of x] by simp
qed

lemma tag_pair_complete:
  assumes "envelope_pair_at (canonicalize uc) ys"
  shows "matcher (canonicalize uc) tag_pair_rx Some (ys, cs) \<noteq> None"
proof -
  let ?cn = "canonicalize uc"
  from assms obtain p ot mid p' ct rest where
    ys: "ys = js ''<'' @ p @ ot @ mid @ js ''</'' @ p' @ ct @ rest"
    and p: "0x3A \<notin> set p" and ot: "ci_eq ?cn ot (js '':Envelope'')"
    and p': "ci_eq ?cn p' p" and ct: "ci_eq ?cn ct (js '':Envelope>'')"
    unfolding envelope_pair_at_def by blast
  define tail where "tail = js ''</'' @ p' @ ct @ rest"
  define inner where "inner = mid @ tail"
  from ci_eq_colon_first[OF ot] obtain ot' where ot': "ot = 0x3A # ot'" by blast
  define ys1 where "ys1 = p @ 0x3A # (ot' @ inner)"
  have ys': "ys = 0x3C # ys1" by (simp add: ys js_def ys1_def inner_def tail_def ot')
  let ?K1 = "\<lambda>s'. after_prefix ?cn Some (fst s', (1, take (length ys1 - length (fst s')) ys1) # snd s')"
  have stop: "greedy (\<lambda>c. c \<noteq> 0x3A) ?K1 cs (p @ 0x3A # (ot' @ inner))
                = ?K1 (0x3A # (ot' @ inner), cs)"
    by (rule greedy_stop) (use p in \<open>auto simp: after_prefix_needs_colon\<close>)
  have k1: "?K1 (0x3A # (ot' @ inner), cs) = after_prefix ?cn Some (ot @ inner, (1, p) # cs)"
    by (simp add: ot' ys1_def)
  have pre: "ci_prefix ?cn (js '':Envelope'') (ot @ inner)"
    and d: "drop (length (js '':Envelope'')) (ot @ inner) = inner"
    using ci_prefix_drop[OF ot, of inner] by simp_all
  have m1: "map_of ((2, x) # (1, p) # cs) (1::nat) = Some p" for x by simp
  have cl: "ci_prefix ?cn (js ''</'' @ p @ js '':Envelope>'') tail"
  proof -
    have "ci_eq ?cn (js ''</'' @ p' @ ct) (js ''</'' @ p @ js '':Envelope>'')"
      by (intro ci_eq_append ci_eq_refl p' ct)
    from ci_prefix_drop[OF this, of rest] show ?thesis by (simp add: tail_def)
  qed
  have c2: "matcher ?cn close_rx Some (tail, (2, x) # (1, p) # cs) \<noteq> None" for x
    unfolding matcher_close[OF m1] using cl by simp
  have ap: "after_prefix ?cn Some (ot @ inner, (1, p) # cs) =
     greedy any_char
          (\<lambda>s'. matcher ?cn close_rx Some
                  (fst s', (2, take (length inner - length (fst s')) inner) # snd s'))
          ((1, p) # cs) inner"
    unfolding after_prefix_eq d using pre by simp
  have "greedy any_char
          (\<lambda>s'. matcher ?cn close_rx Some
                  (fst s', (2, take (length inner - length (fst s')) inner) # snd s'))
          ((1, p) # cs) (mid @ tail) \<noteq> None"
  proof (rule greedy_all_some)
    show "any_char c" for c by (rule any_char_True)
    show "matcher ?cn close_rx Some
           (fst (tail, (1, p) # cs),
            (2, take (length inner - length (fst (tail, (1, p) # cs))) inner)
              # snd (tail, (1, p) # cs)) \<noteq> None"
      using c2[of "take (length inner - length tail) inner"] by simp
  qed
  then have "after_prefix ?cn Some (ot @ inner, (1, p) # cs) \<noteq> None"
    unfolding ap inner_def [symmetric] .
  with stop k1 show ?thesis
    unfolding ys' ys1_def [symmetric] by (simp add: matcher_tag_pair ys1_def)
qed

lemma ci_prefix_suffix: "ci_prefix cn l xs \<Longrightarrow> suffix (drop (length l) xs) xs"
  by (rule suffix_drop)

lemma declaration_sound:
  assumes "matcher cn declaration_rx k (xs, cs) = Some m"
  shows "\<exists>ys. suffix ys xs \<and> k (ys, cs) = Some m"
proof -
  let ?x1 = "drop (length (js ''<?'')) xs"
  from assms have g1: "greedy (\<lambda>c. c \<noteq> 0x3F)
        (\<lambda>s'. matcher cn (RSeq (rx_lit (js ''?>'')) (RStar (RSet is_space))) k s') cs ?x1 = Some m"
    unfolding declaration_rx_def
    by (simp add: matcher_seq matcher_lit matcher_star_set split: if_splits)
  from greedy_sound[OF g1] obtain a b where x1: "?x1 = a @ b"
    and m2: "matcher cn (RSeq (rx_lit (js ''?>'')) (RStar (RSet is_space))) k (b, cs) = Some m"
    by auto
  let ?x2 = "drop (length (js ''?>'')) b"
  from m2 have g2: "greedy is_space k cs ?x2 = Some m"
    by (simp add: matcher_seq matcher_lit matcher_star_set split: if_splits)
  from greedy_sound[OF g2] obtain a' b' where x2: "?x2 = a' @ b'" and k: "k (b', cs) = Some m"
    by auto
  have "suffix b' ?x2" by (rule suffixI) (rule x2)
  also have "suffix ?x2 b" by (rule suffix_drop)
  also have "suffix b ?x1" by (rule suffixI) (rule x1)
  also have "suffix ?x1 xs" by (rule suffix_drop)
  finally show ?thesis using k by blast
qed

lemma envelope_sound:
  assumes "matcher (canonicalize uc) envelope_rx Some (xs, []) = Some m"
  shows "\<exists>ys. suffix ys xs \<and> envelope_pair_at (canonicalize uc) ys"
proof -
  let ?cn = "canonicalize uc"
  let ?K = "\<lambda>s'. matcher ?cn tag_pair_rx Some s'"
  from assms have "matcher ?cn declaration_rx ?K (xs, []) = Some m \<or> ?K (xs, []) = Some m"
    unfolding envelope_rx_def by (simp add: matcher_seq matcher_opt split: option.splits)
  then show ?thesis
  proof
    assume "matcher ?cn declaration_rx ?K (xs, []) = Some m"
    from declaration_sound[OF this] obtain ys where "suffix ys xs" "?K (ys, []) = Some m" by blast
    then show ?thesis using tag_pair_sound by blast
  next
    assume "?K (xs, []) = Some m"
    then have "envelope_pair_at ?cn xs" by (rule tag_pair_sound)
    then show ?thesis by blast
  qed
qed

lemma envelope_complete:
  assumes "envelope_pair_at (canonicalize uc) ys"
  shows "matcher (canonicalize uc) envelope_rx Some (ys, []) \<noteq> None"
  using tag_pair_complete[OF assms, of "[]"]
  unfolding envelope_rx_def by (simp add: matcher_seq matcher_opt split: option.splits)

lemma rx_search_None:
  "rx_search cn r i xs = None \<longleftrightarrow> (\<forall>ys. suffix ys xs \<longrightarrow> matcher cn r Some (ys, []) = None)"
proof (induction xs arbitrary: i)
  case Nil
  then show ?case by (simp split: option.splits)
next
  case (Cons x xs)
  show ?case
    by (auto simp: Cons.IH suffix_Cons split: option.splits)
qed

lemma has_envelope_pair_suffix:
  "has_envelope_pair cn xs \<longleftrightarrow> (\<exists>ys. suffix ys xs \<and> envelope_pair_at cn ys)"
  by (auto simp: has_envelope_pair_def suffix_def)

lemma str_match_envelope:
  "str_match (canonicalize uc) envelope_rx t = None \<longleftrightarrow> \<not> has_envelope_pair (canonicalize uc) t"
proof -
  have "rx_search (canonicalize uc) envelope_rx 0 t = None \<longleftrightarrow> \<not> has_envelope_pair (canonicalize uc) t"
  proof
    assume n: "rx_search (canonicalize uc) envelope_rx 0 t = None"
    then have a: "\<And>ys. suffix ys t \<Longrightarrow> matcher (canonicalize uc) envelope_rx Some (ys, []) = None"
      by (simp only: rx_search_None)
    show "\<not> has_envelope_pair (canonicalize uc) t"
    proof
      assume "has_envelope_pair (canonicalize uc) t"
      then obtain ys where y: "suffix ys t" and e: "envelope_pair_at (canonicalize uc) ys"
        by (auto simp only: has_envelope_pair_suffix)
      from a[OF y] envelope_complete[OF e] show False by simp
    qed
  next
    assume n: "\<not> has_envelope_pair (canonicalize uc) t"
    have "matcher (canonicalize uc) envelope_rx Some (ys, []) = None" if s: "suffix ys t" for ys
    proof (rule ccontr)
      assume "matcher (canonicalize uc) envelope_rx Some (ys, []) \<noteq> None"
      then obtain m where "matcher (canonicalize uc) envelope_rx Some (ys, []) = Some m" by blast
      from envelope_sound[OF this] obtain zs where z: "suffix zs ys"
        and e: "envelope_pair_at (canonicalize uc) zs"
        by blast
      from z s have "suffix zs t" by (rule suffix_order.trans)
      with e have "has_envelope_pair (canonicalize uc) t"
        by (auto simp only: has_envelope_pair_suffix)
      with n show False by simp
    qed
    then show "rx_search (canonicalize uc) envelope_rx 0 t = None"
      by (simp only: rx_search_None) simp
  qed
  then show ?thesis
    by (cases "rx_search (canonicalize uc) envelope_rx 0 t") (auto simp: str_match_def)
qed












section \<open>Properties of sending a request\<close>

lemma once_callback_inv: "once_inv st \<Longrightarrow> once_inv (once_callback a st)"
  by (simp add: once_inv_def once_callback_def)

lemma once_callback_called: "called (once_callback a st)"
  by (simp add: once_callback_def)

lemma once_callback_sent: "sent (once_callback a st) = sent st"
  by (simp add: once_callback_def)





lemma callback_sent: "sent (snd (callback w a st)) = sent st"
  by (cases a) (auto simp: callback_def once_callback_sent split: option.splits sum.splits)






lemma requestWrapper_returns: "fst (requestWrapper w options cb st) = None"
  by (simp add: requestWrapper_def split: fetch_result.splits prod.splits option.splits)







lemma once_inv_at_most: "once_inv st \<Longrightarrow> length (user_calls st) \<le> 1"
  by (simp add: once_inv_def split: if_splits)

lemma error_callback:
  "once_inv st \<Longrightarrow> once_inv (snd (callback w (Some err, None, JUndefined) st))
     \<and> called (snd (callback w (Some err, None, JUndefined) st))"
  by (simp add: callback_def once_callback_inv once_callback_called)





lemma plain_returns: "\<not> mtom_selected (opts exoptions) \<Longrightarrow> returns (buildRequest e rurl data exheaders exoptions)"
  unfolding buildRequest_def Let_def opts_def returns_def by simp

lemma complete_response_text: "res_text (complete_response w options r) = res_text r"
  by (simp add: complete_response_def)

lemma body_read_failure:
  assumes "buildRequest (benv w) rurl data exheaders exoptions = Inr options"
      and "\<not> has_option (js ''ntlm'') exoptions"
      and "exchange w = Resolved r" "\<not> is_string (res_body r)" "res_text r = Inl err"
  shows "user_calls (snd (request w Default rurl data exheaders exoptions initial_state))
           = [(Some err, Some (complete_response w options r), JUndefined)]"
  using assms unfolding request_def
  by (simp add: has_option_def run_handler_def requestWrapper_def callback_def Let_def
        once_callback_def initial_state_def complete_response_text)

section \<open>The claims\<close>

text \<open>
  Claim C10. In the multipart branch \<open>buildRequest\<close> reads the \<open>Content-Type\<close> header
  that is already there and calls \<open>indexOf\<close> on it. So for every payload, when
  \<open>forceMTOM\<close> is set or there is at least one attachment, and the caller's headers have
  no \<open>Content-Type\<close> entry (the base headers never have one), \<open>buildRequest\<close> throws
  the \<open>TypeError\<close> of a call on \<open>null\<close> and returns no descriptor; with such an
  entry it returns one.
\<close>

theorem buildRequest_mtom_needs_content_type:
  assumes "mtom_selected (opts exoptions)"
  shows "(\<not> has_header (js ''Content-Type'') exheaders
            \<longrightarrow> buildRequest env rurl data exheaders exoptions = Inl null_indexOf)
       \<and> (has_header (js ''Content-Type'') exheaders
            \<longrightarrow> (\<exists>d. buildRequest env rurl data exheaders exoptions = Inr d))"
proof (intro conjI impI)
  let ?ex = "opts exoptions"
  let ?exh = "case exheaders of None \<Rightarrow> [] | Some e \<Rightarrow> e"
  from assms have np: "\<not> plain_selected data ?ex"
    by (auto simp: mtom_selected_def plain_selected_def)
  {
    assume "\<not> has_header (js ''Content-Type'') exheaders"
    then have "\<not> has_header (js ''content-type'') (Some ?exh)"
      by (simp add: has_header_def lowercase_js)
    then have "headers_get (js ''content-type'') (request_headers env data ?exh ?ex) = None"
      using np by (intro request_headers_absent) (simp_all add: base_headers_no_content_type)
    with assms show "buildRequest env rurl data exheaders exoptions = Inl null_indexOf"
      unfolding buildRequest_def Let_def opts_def by simp
  }
  {
    assume "has_header (js ''Content-Type'') exheaders"
    then have "\<exists>(a, v) \<in> set ?exh. lowercase a = lowercase (js ''content-type'')"
      by (simp add: has_header_def lowercase_js)
    then have "headers_get (js ''content-type'') (request_headers env data ?exh ?ex) \<noteq> None"
      unfolding request_headers_def Let_def by (intro headers_get_fold_present) simp
    then obtain ct where
      "headers_get (js ''content-type'') (request_headers env data ?exh ?ex) = Some ct"
      by auto
    with assms show "\<exists>d. buildRequest env rurl data exheaders exoptions = Inr d"
      unfolding buildRequest_def Let_def opts_def by simp
  }
qed

theorem buildRequest_mtom_needs_content_type_witness:
  "mtom_selected (opts (Some [(js ''forceMTOM'', JBool True)]))
   \<and> \<not> has_header (js ''Content-Type'') None
   \<and> buildRequest example_env example_url (JStr (js ''<x/>'')) None
        (Some [(js ''forceMTOM'', JBool True)]) = Inl null_indexOf"
proof -
  have m: "mtom_selected (opts (Some [(js ''forceMTOM'', JBool True)]))"
    by (simp add: mtom_selected_def opts_def get_prop_def)
  have h: "\<not> has_header (js ''Content-Type'') None"
    by (simp add: has_header_def)
  from buildRequest_mtom_needs_content_type
         [OF m, of None example_env example_url "JStr (js ''<x/>'')"] h m
  show ?thesis by simp
qed




text \<open>
  Claim C9, as the code has it. Whenever \<open>buildRequest\<close> returns and the caller names
  no \<open>Host\<close> header: if the parsed URL has no port the \<open>Host\<close> header is the host
  name, and if it has a port (decimal digits, whether or not it is the default of the
  scheme) the \<open>Host\<close> header is the host name, a colon and the port.
\<close>

theorem buildRequest_host_header:
  assumes "returns (buildRequest env rurl data exheaders exoptions)"
      and "\<not> caller_names_header (js ''Host'') exheaders exoptions"
  shows "(port (curl env) = None \<longrightarrow>
            result_header (js ''Host'') (buildRequest env rurl data exheaders exoptions)
              = Some (str_or_null (hostname (curl env))))
       \<and> (\<forall>ds. port (curl env) = Some ds \<and> canonical_port ds \<longrightarrow>
            result_header (js ''Host'') (buildRequest env rurl data exheaders exoptions)
              = Some (str_or_null (hostname (curl env)) @ js '':'' @ ds))"
proof -
  from assms(1) obtain d where d: "buildRequest env rurl data exheaders exoptions = Inr d"
    by (auto simp: returns_def split: sum.splits)
  show ?thesis using host_header_of_descriptor[OF d assms(2)] by (simp add: d result_header_def)
qed

theorem buildRequest_host_header_witness:
  "returns (buildRequest example_env_8080 (js ''http://example.com:8080/service'') (JStr (js ''<x/>'')) None None)
   \<and> \<not> caller_names_header (js ''Host'') None None
   \<and> port (curl example_env_8080) = Some (js ''8080'') \<and> canonical_port (js ''8080'')
   \<and> result_header (js ''Host'')
        (buildRequest example_env_8080 (js ''http://example.com:8080/service'') (JStr (js ''<x/>'')) None None)
       = Some (js ''example.com:8080'')"
proof -
  have "\<not> mtom_selected (opts None)"
    by (simp add: mtom_selected_def opts_def attachments_of_def get_prop_def)
  then have r: "returns (buildRequest example_env_8080 (js ''http://example.com:8080/service'') (JStr (js ''<x/>'')) None None)"
    by (simp add: buildRequest_plain returns_def)
  have n: "\<not> caller_names_header (js ''Host'') None None"
    by (simp add: caller_names_header_def has_header_def option_names_header_def opts_def
          get_prop_def keys_of_def)
  have p: "port (curl example_env_8080) = Some (js ''8080'')"
    by (simp add: example_env_8080_def)
  have c: "canonical_port (js ''8080'')"
    by (simp add: canonical_port_def js_def is_digit_def)
  have h: "str_or_null (hostname (curl example_env_8080)) @ js '':'' @ js ''8080'' = js ''example.com:8080''"
    by (simp add: example_env_8080_def str_or_null_def js_def)
  from buildRequest_host_header[OF r n] p c have "result_header (js ''Host'')
        (buildRequest example_env_8080 (js ''http://example.com:8080/service'') (JStr (js ''<x/>'')) None None)
       = Some (str_or_null (hostname (curl example_env_8080)) @ js '':'' @ js ''8080'')"
    by blast
  with r n p c h show ?thesis by simp
qed

text \<open>
  Claim C9 as stated fails for a URL that writes the default port of its scheme:
  \<open>http://example.com:80/service\<close> gives the \<open>Host\<close> header \<open>example.com:80\<close>.
\<close>

theorem buildRequest_host_keeps_default_port:
  "port (curl example_env) = default_port (protocol (curl example_env))
   \<and> result_header (js ''Host'')
        (buildRequest example_env example_url (JStr (js ''<x/>'')) None None)
       = Some (js ''example.com:80'')
   \<and> js ''example.com:80'' \<noteq> js ''example.com''"
proof (intro conjI)
  show "port (curl example_env) = default_port (protocol (curl example_env))"
    by (simp add: example_env_def default_port_def)
  show "result_header (js ''Host'')
        (buildRequest example_env example_url (JStr (js ''<x/>'')) None None)
       = Some (js ''example.com:80'')"
    by code_simp
  show "js ''example.com:80'' \<noteq> js ''example.com''"
    by (simp add: js_def)
qed




text \<open>
  Claim C8 at the input \<open>exoptions = {headers: {'X-Foo': 'bar'}}\<close>. The loop assigns
  \<open>options.headers['X-Foo'] = 'bar'\<close> on the \<open>Headers\<close> instance: the entry becomes
  an ordinary property of the object and is not in the header list, so
  \<open>headers.get('X-Foo')\<close> is \<open>null\<close> and the header is not sent.
\<close>

theorem buildRequest_headers_option_not_effective:
  "result_header (js ''X-Foo'')
     (buildRequest example_env example_url (JStr (js ''<x/>'')) None
        (Some [(js ''headers'', JObj [(js ''X-Foo'', JStr (js ''bar''))])])) = None
   \<and> map_option header_props
       (result_prop (js ''headers'')
         (buildRequest example_env example_url (JStr (js ''<x/>'')) None
            (Some [(js ''headers'', JObj [(js ''X-Foo'', JStr (js ''bar''))])])))
     = Some [(js ''X-Foo'', JStr (js ''bar''))]"
  by (intro conjI; code_simp)




text \<open>
  Claim C4. In the NTLM path of \<open>request\<close> (the options have the key \<open>ntlm\<close> and
  \<open>buildRequest\<close> has returned), if the response to the handshake request has no
  \<open>WWW-Authenticate\<close> header, the callback is called once, with the error of the failed
  handshake, and the request handler is not called: the real request is never sent.
\<close>

theorem ntlm_without_challenge:
  assumes "returns (buildRequest (benv w) rurl data exheaders exoptions)"
      and "has_option (js ''ntlm'') exoptions"
      and "probe w = Resolved r"
      and "headers_get (js ''www-authenticate'') (res_headers r) = None"
  shows "fst (request w h rurl data exheaders exoptions initial_state) = None
       \<and> user_calls (snd (request w h rurl data exheaders exoptions initial_state))
           = [(Some handshake_failed, None, JUndefined)]
       \<and> sent (snd (request w h rurl data exheaders exoptions initial_state)) = []"
proof -
  from assms(1) obtain options where b: "buildRequest (benv w) rurl data exheaders exoptions = Inr options"
    by (auto simp: returns_def split: sum.splits)
  from assms(2) have n: "exoptions \<noteq> None \<and> js ''ntlm'' \<in> fst ` set (opts exoptions)"
    by (auto simp: has_option_def opts_def)
  have f: "ntlmHandshake w rurl options = Inl handshake_failed"
    using assms(3,4) by (simp add: ntlmHandshake_def)
  show ?thesis
    unfolding request_def Let_def b using n f
    by (simp add: callback_def once_callback_def initial_state_def)
qed

theorem ntlm_without_challenge_witness:
  "returns (buildRequest (benv example_world) example_url (JStr (js ''<x/>'')) xml_headers
              (Some [(js ''ntlm'', JBool True)]))
   \<and> has_option (js ''ntlm'') (Some [(js ''ntlm'', JBool True)])
   \<and> probe example_world = Resolved example_response
   \<and> headers_get (js ''www-authenticate'') (res_headers example_response) = None
   \<and> user_calls (snd (request example_world Default example_url (JStr (js ''<x/>'')) xml_headers
                          (Some [(js ''ntlm'', JBool True)]) initial_state))
       = [(Some handshake_failed, None, JUndefined)]
   \<and> sent (snd (request example_world Default example_url (JStr (js ''<x/>'')) xml_headers
                    (Some [(js ''ntlm'', JBool True)]) initial_state)) = []"
proof -
  have "\<not> mtom_selected (opts (Some [(js ''ntlm'', JBool True)]))"
    by (simp add: mtom_selected_def opts_def attachments_of_def get_prop_def js_def)
  then have r: "returns (buildRequest (benv example_world) example_url (JStr (js ''<x/>'')) xml_headers
              (Some [(js ''ntlm'', JBool True)]))"
    by (rule plain_returns)
  have o: "has_option (js ''ntlm'') (Some [(js ''ntlm'', JBool True)])"
    by (simp add: has_option_def opts_def)
  have p: "probe example_world = Resolved example_response"
    by (simp add: example_world_def)
  have a: "headers_get (js ''www-authenticate'') (res_headers example_response) = None"
    by (simp add: example_response_def headers_get_def lowercase_def lower_char_def js_def)
  from ntlm_without_challenge[OF r o p a, of Default] r o p a show ?thesis by simp
qed

text \<open>
  Claim C5. For every response that \<open>fetch\<close> resolves with, whatever its status,
  \<open>requestWrapper\<close> calls the callback once, with a \<open>null\<close> error, the response and
  the body of the response, and the \<open>statusCode\<close> of that response is the status: a
  status outside 2xx gives no error argument.
\<close>

theorem requestWrapper_status_is_not_an_error:
  "requestWrapper (w\<lparr>exchange := Resolved r\<rparr>) options recording []
     = (None, [(None, Some (complete_response (w\<lparr>exchange := Resolved r\<rparr>) options r), res_body r)])
   \<and> statusCode (complete_response (w\<lparr>exchange := Resolved r\<rparr>) options r) = Some (status r)"
  by (simp add: requestWrapper_def recording_def complete_response_def)




text \<open>
  Claim C7, as the code has it. For every string body that, after its first XML comment
  block is removed, has no pair of an opening tag \<open><p:Envelope\<close> and a later closing
  tag \<open></p:Envelope>\<close>, \<open>handleResponse\<close> returns the body unchanged.
\<close>

theorem handleResponse_identity_without_envelope:
  assumes "\<not> has_envelope_pair (canonicalize uc) (without_first_comment s)"
  shows "handleResponse uc (JStr s) = JStr s"
proof -
  from assms have "str_match (canonicalize uc) envelope_rx (without_first_comment s) = None"
    by (simp add: str_match_envelope)
  then show ?thesis by (simp add: handleResponse_def without_first_comment_def)
qed

theorem handleResponse_identity_without_envelope_witness:
  "\<not> has_envelope_pair (canonicalize id)
       (without_first_comment (js ''<html><body>502 Bad Gateway</body></html>''))
   \<and> handleResponse id (JStr (js ''<html><body>502 Bad Gateway</body></html>''))
       = JStr (js ''<html><body>502 Bad Gateway</body></html>'')"
proof -
  have "str_match (canonicalize id) envelope_rx
          (without_first_comment (js ''<html><body>502 Bad Gateway</body></html>'')) = None"
    by code_simp
  then have n: "\<not> has_envelope_pair (canonicalize id)
       (without_first_comment (js ''<html><body>502 Bad Gateway</body></html>''))"
    by (rule str_match_envelope[THEN iffD1])
  from handleResponse_identity_without_envelope[OF n] n show ?thesis by simp
qed

text \<open>
  Claim C7 as stated fails: the expression is matched against the body without its first
  comment, and removing a comment can join the two halves of an opening tag. The body below
  has no pair of tags, and the result is not the body.
\<close>

theorem handleResponse_comment_joins_tag:
  "\<not> has_envelope_pair (canonicalize id) (js ''<s:Enve<!--x-->lope></s:Envelope>'')
   \<and> handleResponse id (JStr (js ''<s:Enve<!--x-->lope></s:Envelope>''))
       = JStr (js ''<s:Envelope></s:Envelope>'')
   \<and> js ''<s:Envelope></s:Envelope>'' \<noteq> js ''<s:Enve<!--x-->lope></s:Envelope>''"
proof (intro conjI)
  have "str_match (canonicalize id) envelope_rx (js ''<s:Enve<!--x-->lope></s:Envelope>'') = None"
    by code_simp
  then show "\<not> has_envelope_pair (canonicalize id) (js ''<s:Enve<!--x-->lope></s:Envelope>'')"
    by (rule str_match_envelope[THEN iffD1])
  show "handleResponse id (JStr (js ''<s:Enve<!--x-->lope></s:Envelope>''))
       = JStr (js ''<s:Envelope></s:Envelope>'')"
    by code_simp
  show "js ''<s:Envelope></s:Envelope>'' \<noteq> js ''<s:Enve<!--x-->lope></s:Envelope>''"
    by (simp add: js_def)
qed

end
